theory Spec2Isabelle
  imports Complex_Main "HOL-Library.Word" "HOL-Library.Stream"
begin

section \<open>The lighting-gradient augmentation of augraphy\<close>

text \<open>
  A shallow embedding of \<^verbatim>\<open>augraphy/augmentations/lightinggradient.py\<close>.

  Conventions of the model.
  \<^item> Python integers are \<open>int\<close>. Python floats and the \<^verbatim>\<open>float32\<close> samples of the canvas
    are idealised as \<open>real\<close>: rounding is not modelled. An 8-bit sample is an \<open>8 word\<close>.
  \<^item> The two decay kernels are compiled by numba in nopython mode (lines 147 and 177):
    inside them an integer is a 64-bit integer. The model takes their integer arguments to
    be in that range and wraps the difference of the two brightness values; the distance
    of a row index from the centre is taken exact (it stays within 64 bits for every
    centre less than \<open>2 ^ 62\<close> in absolute value).
  \<^item> A 2-D array is a list of rows, a 3-D array a list of rows of pixels (lists of channel
    samples).
  \<^item> Every \<^verbatim>\<open>raise\<close> the program can reach is a value \<open>Inl e\<close> of the result type.
  \<^item> The random module is an explicit state: a stream of raw draws, threaded through.
  \<^item> What OpenCV computes per pixel (colour conversion, interpolation of the warp) is a
    parameter of the model, collected in the record \<open>cv2\<close>; the shapes OpenCV and numpy
    produce are written out.
\<close>

subsection \<open>Errors\<close>

text \<open>
  The exceptions the modelled statements can raise. \<open>InvalidDimensions\<close> is the condition
  named by the specification; no statement of the source raises it.
\<close>

datatype error =
    ZeroDivisionError
  | IndexError
  | UnboundLocalError
  | ValueError
  | TypeError
  | CvError
  | InvalidDimensions

type_synonym byte = "8 word"

type_synonym canvas = "real list list"

subsection \<open>The decay kernels\<close>

text \<open>
  \<^verbatim>\<open>mask[x] = x_value\<close> on a 2-D array writes \<open>x_value\<close> to every sample of row \<open>x\<close>;
  an index past the last row raises \<^verbatim>\<open>IndexError\<close>.
\<close>

definition set_row :: "canvas \<Rightarrow> nat \<Rightarrow> real \<Rightarrow> error + canvas" where
  "set_row msk x v =
     (if x < length msk then Inr (msk[x := replicate (length (msk ! x)) v])
      else Inl IndexError)"

text \<open>
  Both kernels are the loop \<^verbatim>\<open>for x in range(canvas_y): x_value = ...; mask[x] = x_value\<close>.
  The state of the loop is the canvas and the last \<open>x_value\<close> assigned (none before the
  first iteration).
\<close>

fun fill_rows ::
  "(nat \<Rightarrow> error + real) \<Rightarrow> nat list \<Rightarrow> canvas \<times> real option \<Rightarrow> error + canvas \<times> real option"
where
  "fill_rows body [] st = Inr st"
| "fill_rows body (x # xs) (msk, last_value) =
     (case body x of
        Inl e \<Rightarrow> Inl e
      | Inr x_value \<Rightarrow>
          (case set_row msk x x_value of
             Inl e \<Rightarrow> Inl e
           | Inr msk' \<Rightarrow> fill_rows body xs (msk', Some x_value)))"

text \<open>\<^verbatim>\<open>range(n)\<close>: empty when \<open>n \<le> 0\<close>.\<close>

definition py_range :: "int \<Rightarrow> nat list" where
  "py_range n = [0 ..< nat n]"


definition int64 :: "int \<Rightarrow> int" where
  "int64 i = sint (word_of_int i :: 64 word)"

text \<open>
  The body of the loop of \<^verbatim>\<open>apply_decay_value_norm\<close> (lines 167 to 173). The divisions by
  \<open>abs(radius)\<close> raise when the radius is zero. \<open>max_value - min_value\<close> is a subtraction of
  two 64-bit integers and wraps around.
\<close>

definition norm_value :: "int \<Rightarrow> int \<Rightarrow> int \<Rightarrow> int \<Rightarrow> nat \<Rightarrow> error + real" where
  "norm_value max_value min_value center grange x =
     (let radius = real_of_int grange / 3 in
      if \<bar>radius\<bar> = 0 then Inl ZeroDivisionError
      else
        let center_prob = 1 / (sqrt (2 * pi) * \<bar>radius\<bar>);
            u = (real x - real_of_int center) / \<bar>radius\<bar>;
            x_prob = (1 / (sqrt (2 * pi) * \<bar>radius\<bar>)) * exp (- u * u / 2);
            x_value = (x_prob / center_prob) * real_of_int (int64 (max_value - min_value))
                      + real_of_int min_value
        in Inr x_value)"

definition apply_decay_value_norm ::
  "canvas \<Rightarrow> int \<Rightarrow> int \<Rightarrow> int \<Rightarrow> int \<Rightarrow> int \<Rightarrow> error + canvas"
where
  "apply_decay_value_norm msk canvas_y max_value min_value center grange =
     (case fill_rows (norm_value max_value min_value center grange) (py_range canvas_y)
             (msk, None) of
        Inl e \<Rightarrow> Inl e
      | Inr (msk', _) \<Rightarrow> Inr msk')"

text \<open>The body of the loop of \<^verbatim>\<open>apply_decay_value_linear\<close> (lines 194 to 196).\<close>

definition linear_value :: "int \<Rightarrow> int \<Rightarrow> real \<Rightarrow> nat \<Rightarrow> real" where
  "linear_value max_value padding_center decay_rate x =
     (let x_value = real_of_int max_value - real_of_int \<bar>padding_center - int x\<bar> * decay_rate
      in if x_value < 0 then 1 else x_value)"

text \<open>
  \<^verbatim>\<open>apply_decay_value_linear\<close> ends with \<^verbatim>\<open>return x_value\<close>. When the loop did not run, the
  compiled kernel returns the zero its float variable starts from (the interpreter would
  raise \<^verbatim>\<open>UnboundLocalError\<close>).
\<close>

definition apply_decay_value_linear ::
  "canvas \<Rightarrow> int \<Rightarrow> int \<Rightarrow> int \<Rightarrow> real \<Rightarrow> error + canvas \<times> real"
where
  "apply_decay_value_linear msk canvas_y max_value padding_center decay_rate =
     (case fill_rows (\<lambda>x. Inr (linear_value max_value padding_center decay_rate x))
             (py_range canvas_y) (msk, None) of
        Inl e \<Rightarrow> Inl e
      | Inr (msk', None) \<Rightarrow> Inr (msk', 0)
      | Inr (msk', Some x_value) \<Rightarrow> Inr (msk', x_value))"

subsection \<open>The random module\<close>

text \<open>
  The state of Python's \<^verbatim>\<open>random\<close> module is a stream of raw draws; each call consumes
  one. \<^verbatim>\<open>randint(a, b)\<close> returns an integer \<open>N\<close> with \<open>a \<le> N \<le> b\<close>, both ends included, and
  raises \<^verbatim>\<open>ValueError\<close> on an empty range; \<^verbatim>\<open>uniform(a, b)\<close> returns
  \<open>a + (b - a) * random()\<close>, where \<^verbatim>\<open>random()\<close> is a multiple of \<open>2 ^ -53\<close> in \<open>[0, 1)\<close>.
\<close>

type_synonym rng = "nat stream"

definition randint :: "int \<Rightarrow> int \<Rightarrow> rng \<Rightarrow> error + int \<times> rng" where
  "randint a b g =
     (if b < a then Inl ValueError
      else Inr (a + int (shd g mod nat (b - a + 1)), stl g))"

definition uniform :: "real \<Rightarrow> real \<Rightarrow> rng \<Rightarrow> real \<times> rng" where
  "uniform a b g = (a + (b - a) * (real (shd g mod 2 ^ 53) / 2 ^ 53), stl g)"

subsection \<open>numpy and OpenCV\<close>

text \<open>\<^verbatim>\<open>int(r)\<close> on a float truncates towards zero.\<close>

definition py_int :: "real \<Rightarrow> int" where
  "py_int r = (if 0 \<le> r then \<lfloor>r\<rfloor> else \<lceil>r\<rceil>)"

text \<open>\<^verbatim>\<open>xs[i:j]\<close>: a negative index counts from the end, and both ends are clipped.\<close>

definition py_slice :: "'a list \<Rightarrow> int \<Rightarrow> int \<Rightarrow> 'a list" where
  "py_slice xs i j =
     (let n = int (length xs);
          lo = (if i < 0 then max (i + n) 0 else min i n);
          hi = (if j < 0 then max (j + n) 0 else min j n)
      in take (nat (hi - lo)) (drop (nat lo) xs))"

text \<open>\<^verbatim>\<open>np.zeros(shape=(rows, cols))\<close> raises \<^verbatim>\<open>ValueError\<close> on a negative dimension.\<close>

definition np_zeros :: "int \<Rightarrow> int \<Rightarrow> error + canvas" where
  "np_zeros rows cols =
     (if rows < 0 \<or> cols < 0 then Inl ValueError
      else Inr (replicate (nat rows) (replicate (nat cols) 0)))"

text \<open>
  The conversion of a float sample to \<^verbatim>\<open>uint8\<close> (by \<^verbatim>\<open>np.asarray(..., dtype=np.uint8)\<close>, or
  by an assignment into a \<^verbatim>\<open>uint8\<close> array) drops the fraction and keeps the low 8 bits.
\<close>

definition to_uint8 :: "real \<Rightarrow> byte" where
  "to_uint8 r = word_of_int (py_int r)"

text \<open>
  The per-pixel functions of OpenCV that the model takes as parameters: the two colour
  conversions on 8-bit pixels, and the value of destination sample \<open>(x, y)\<close> of
  \<^verbatim>\<open>warpAffine(src, getRotationMatrix2D(center, angle, 1), dsize)\<close>.
\<close>

record cv2 =
  bgr2hsv :: "byte \<times> byte \<times> byte \<Rightarrow> byte \<times> byte \<times> byte"
  hsv2bgr :: "byte \<times> byte \<times> byte \<Rightarrow> byte \<times> byte \<times> byte"
  warp_sample :: "canvas \<Rightarrow> int \<times> int \<Rightarrow> int \<Rightarrow> nat \<Rightarrow> nat \<Rightarrow> real"

text \<open>
  \<^verbatim>\<open>cv2.warpAffine\<close> rejects an empty source; its result has the size \<open>dsize = (width,
  height)\<close>, or the size of the source when \<open>dsize\<close> is empty.
\<close>

definition warpAffine :: "cv2 \<Rightarrow> canvas \<Rightarrow> int \<times> int \<Rightarrow> int \<Rightarrow> int \<times> int \<Rightarrow> error + canvas" where
  "warpAffine lib src center angle dsize =
     (if src = [] \<or> hd src = [] then Inl CvError
      else
        let (width, height) =
              (if fst dsize \<le> 0 \<or> snd dsize \<le> 0 then (length (hd src), length src)
               else (nat (fst dsize), nat (snd dsize)))
        in Inr (map (\<lambda>y. map (\<lambda>x. warp_sample lib src center angle x y) [0 ..< width])
                  [0 ..< height]))"

text \<open>
  \<^verbatim>\<open>cv2.medianBlur(src, ksize)\<close> on a single-channel 8-bit array: every sample becomes the
  median of the \<open>ksize \<times> ksize\<close> window around it, the border samples being replicated
  outwards. It rejects an empty source and an even \<open>ksize\<close>.
\<close>

definition clamp_index :: "int \<Rightarrow> nat \<Rightarrow> nat" where
  "clamp_index i n = nat (max 0 (min i (int n - 1)))"

definition median_at :: "byte list list \<Rightarrow> nat \<Rightarrow> nat \<Rightarrow> nat \<Rightarrow> byte" where
  "median_at src ksize y x =
     (let r = int (ksize div 2);
          window = concat (map (\<lambda>dy. map (\<lambda>dx.
                      src ! clamp_index (int y + dy) (length src)
                          ! clamp_index (int x + dx) (length (hd src))) [- r .. r]) [- r .. r])
      in sort window ! (length window div 2))"

definition medianBlur :: "byte list list \<Rightarrow> nat \<Rightarrow> error + byte list list" where
  "medianBlur src ksize =
     (if src = [] \<or> hd src = [] \<or> even ksize then Inl CvError
      else Inr (map (\<lambda>y. map (\<lambda>x. median_at src ksize y x) [0 ..< length (hd src)])
                  [0 ..< length src]))"

subsection \<open>Mask generation\<close>

text \<open>Lines 96 to 101: the position of the light, sampled when unset.\<close>

definition resolve_position ::
  "int \<times> int \<Rightarrow> (int \<times> int) option \<Rightarrow> rng \<Rightarrow> error + (int \<times> int) \<times> rng"
where
  "resolve_position mask_size position g =
     (case position of
        None \<Rightarrow>
          (case randint 0 (fst mask_size) g of
             Inl e \<Rightarrow> Inl e
           | Inr (pos_x, g1) \<Rightarrow>
               (case randint 0 (snd mask_size) g1 of
                  Inl e \<Rightarrow> Inl e
                | Inr (pos_y, g2) \<Rightarrow> Inr ((pos_x, pos_y), g2)))
      | Some pos \<Rightarrow> Inr ((fst pos, snd pos), g))"

text \<open>Lines 102 and 103: the direction, sampled when unset.\<close>

definition resolve_direction :: "int option \<Rightarrow> rng \<Rightarrow> error + int \<times> rng" where
  "resolve_direction direction g =
     (case direction of
        None \<Rightarrow> randint 0 360 g
      | Some d \<Rightarrow> Inr (d, g))"

text \<open>Lines 104 to 106: the decay rate, sampled when unset in mode \<^verbatim>\<open>linear_static\<close>.\<close>

definition resolve_decay_rate :: "string \<Rightarrow> real option \<Rightarrow> rng \<Rightarrow> real option \<times> rng" where
  "resolve_decay_rate mode linear_decay_rate g =
     (case linear_decay_rate of
        None \<Rightarrow>
          (if mode = ''linear_static'' then
             (let (r, g1) = uniform (2 / 10) 2 g in (Some r, g1))
           else (None, g))
      | Some r \<Rightarrow> (Some r, g))"

text \<open>Lines 108 and 109: an invalid mode becomes \<^verbatim>\<open>gaussian\<close>.\<close>

definition normalise_mode :: "string \<Rightarrow> string" where
  "normalise_mode mode =
     (if mode \<notin> set [''linear_dynamic'', ''linear_static'', ''gaussian''] then ''gaussian''
      else mode)"

text \<open>
  Lines 110 and 111: in mode \<^verbatim>\<open>linear_dynamic\<close> the rate is derived; the true division of
  two integers raises on a zero divisor.
\<close>

definition dynamic_decay_rate ::
  "int \<times> int \<Rightarrow> int \<Rightarrow> int \<Rightarrow> string \<Rightarrow> real option \<Rightarrow> error + real option"
where
  "dynamic_decay_rate mask_size max_brightness min_brightness mode linear_decay_rate =
     (if mode = ''linear_dynamic'' then
        (if max (fst mask_size) (snd mask_size) = 0 then Inl ZeroDivisionError
         else Inr (Some (real_of_int (max_brightness - min_brightness)
                          / real_of_int (max (fst mask_size) (snd mask_size)))))
      else Inr linear_decay_rate)"

text \<open>The parameters after lines 96 to 111.\<close>

record resolved =
  res_position :: "int \<times> int"
  res_direction :: int
  res_mode :: string
  res_decay_rate :: "real option"

definition resolve_parameters ::
  "rng \<Rightarrow> int \<times> int \<Rightarrow> (int \<times> int) option \<Rightarrow> int option \<Rightarrow> int \<Rightarrow> int \<Rightarrow> string \<Rightarrow> real option
     \<Rightarrow> error + resolved \<times> rng"
where
  "resolve_parameters g mask_size position direction max_brightness min_brightness mode
       linear_decay_rate =
     (case resolve_position mask_size position g of
        Inl e \<Rightarrow> Inl e
      | Inr (pos, g1) \<Rightarrow>
          (case resolve_direction direction g1 of
             Inl e \<Rightarrow> Inl e
           | Inr (direction1, g2) \<Rightarrow>
               (let (rate1, g3) = resolve_decay_rate mode linear_decay_rate g2;
                    mode1 = normalise_mode mode
                in case dynamic_decay_rate mask_size max_brightness min_brightness mode1 rate1 of
                     Inl e \<Rightarrow> Inl e
                   | Inr rate2 \<Rightarrow>
                       Inr (\<lparr>res_position = pos, res_direction = direction1,
                             res_mode = mode1, res_decay_rate = rate2\<rparr>, g3))))"


text \<open>Line 113: \<^verbatim>\<open>padding = int(max(mask_size) * np.sqrt(2))\<close>.\<close>

definition padding_of :: "int \<times> int \<Rightarrow> int" where
  "padding_of mask_size = py_int (real_of_int (max (fst mask_size) (snd mask_size)) * sqrt 2)"

definition crop :: "'a list list \<Rightarrow> int \<times> int \<Rightarrow> int \<times> int \<Rightarrow> 'a list list" where
  "crop msk ul br = map (\<lambda>row. py_slice row (fst ul) (fst br)) (py_slice msk (snd ul) (snd br))"

text \<open>
  Lines 124 to 127: the profile is written by the kernel of the mode. A rate that is still
  unset in a linear mode would make the product in the kernel raise \<^verbatim>\<open>TypeError\<close>.
\<close>

definition fill_profile ::
  "resolved \<Rightarrow> canvas \<Rightarrow> int \<Rightarrow> int \<Rightarrow> int \<Rightarrow> int \<Rightarrow> int \<Rightarrow> error + canvas"
where
  "fill_profile rp msk canvas_y max_brightness min_brightness center grange =
     (if res_mode rp = ''gaussian'' then
        apply_decay_value_norm msk canvas_y max_brightness min_brightness center grange
      else
        (case res_decay_rate rp of
           None \<Rightarrow> Inl TypeError
         | Some rate \<Rightarrow>
             (case apply_decay_value_linear msk canvas_y max_brightness center rate of
                Inl e \<Rightarrow> Inl e
              | Inr (msk1, _) \<Rightarrow> Inr msk1)))"

text \<open>
  Lines 113 to 142: the canvas, the decay profile, the rotation, the crop and the finish.
\<close>

definition build_mask ::
  "cv2 \<Rightarrow> int \<times> int \<Rightarrow> resolved \<Rightarrow> int \<Rightarrow> int \<Rightarrow> error + byte list list"
where
  "build_mask lib mask_size rp max_brightness min_brightness =
     (let padding = padding_of mask_size;
          canvas_x = padding * 2 + fst mask_size;
          canvas_y = padding * 2 + snd mask_size
      in case np_zeros canvas_y canvas_x of
           Inl e \<Rightarrow> Inl e
         | Inr msk \<Rightarrow>
             (let init_mask_ul = (padding, padding);
                  init_mask_br = (padding + fst mask_size, padding + snd mask_size);
                  init_light_pos = (padding + fst (res_position rp),
                                    padding + snd (res_position rp))
              in case fill_profile rp msk canvas_y max_brightness min_brightness
                        (snd init_light_pos) (snd mask_size) of
                   Inl e \<Rightarrow> Inl e
                 | Inr msk1 \<Rightarrow>
                     (case warpAffine lib msk1 init_light_pos (res_direction rp)
                             (canvas_x, canvas_y) of
                        Inl e \<Rightarrow> Inl e
                      | Inr msk2 \<Rightarrow>
                          (let msk3 = crop msk2 init_mask_ul init_mask_br;
                               msk4 = map (map to_uint8) msk3
                           in case medianBlur msk4 9 of
                                Inl e \<Rightarrow> Inl e
                              | Inr msk5 \<Rightarrow> Inr (map (map (\<lambda>v. 255 - v)) msk5)))))"

definition generate_parallel_light_mask ::
  "cv2 \<Rightarrow> rng \<Rightarrow> int \<times> int \<Rightarrow> (int \<times> int) option \<Rightarrow> int option \<Rightarrow> int \<Rightarrow> int \<Rightarrow> string
     \<Rightarrow> real option \<Rightarrow> error + byte list list \<times> rng"
where
  "generate_parallel_light_mask lib g mask_size position direction max_brightness
       min_brightness mode linear_decay_rate =
     (case resolve_parameters g mask_size position direction max_brightness min_brightness
             mode linear_decay_rate of
        Inl e \<Rightarrow> Inl e
      | Inr (rp, g1) \<Rightarrow>
          (case build_mask lib mask_size rp max_brightness min_brightness of
             Inl e \<Rightarrow> Inl e
           | Inr msk \<Rightarrow> Inr (msk, g1)))"

subsection \<open>Images\<close>

text \<open>
  An image is a \<^verbatim>\<open>uint8\<close> array with two dimensions (rows of samples) or three (rows of
  pixels). \<open>shape\<close> is its \<^verbatim>\<open>.shape\<close>.
\<close>

datatype image = Img2 "byte list list" | Img3 "byte list list list"

fun shape :: "image \<Rightarrow> nat list" where
  "shape (Img2 rows) = [length rows, (case rows of [] \<Rightarrow> 0 | r # _ \<Rightarrow> length r)]"
| "shape (Img3 rows) =
     [length rows,
      (case rows of [] \<Rightarrow> 0 | r # _ \<Rightarrow> length r),
      (case rows of [] \<Rightarrow> 0 | r # _ \<Rightarrow> (case r of [] \<Rightarrow> 0 | px # _ \<Rightarrow> length px))]"

text \<open>\<^verbatim>\<open>frame[:, :, :3]\<close> and \<^verbatim>\<open>frame[:, :, 3]\<close>.\<close>

fun first_channels :: "nat \<Rightarrow> image \<Rightarrow> image" where
  "first_channels n (Img3 rows) = Img3 (map (map (take n)) rows)"
| "first_channels n (Img2 rows) = Img2 rows"

fun channel :: "nat \<Rightarrow> image \<Rightarrow> byte list list" where
  "channel k (Img3 rows) = map (map (\<lambda>px. px ! k)) rows"
| "channel k (Img2 rows) = rows"

text \<open>
  \<^verbatim>\<open>cv2.cvtColor\<close>: a conversion from BGR or HSV takes a non-empty array of 3-channel (or
  4-channel) pixels, the conversion from grey a non-empty 2-D array; anything else is
  rejected. The result has 3 channels.
\<close>

definition convert_pixels ::
  "(byte \<times> byte \<times> byte \<Rightarrow> byte \<times> byte \<times> byte) \<Rightarrow> image \<Rightarrow> error + image"
where
  "convert_pixels f src =
     (case src of
        Img2 rows \<Rightarrow> Inl CvError
      | Img3 rows \<Rightarrow>
          (if rows = [] \<or> hd rows = []
              \<or> (\<exists>row \<in> set rows. \<exists>px \<in> set row. length px \<noteq> 3 \<and> length px \<noteq> 4)
           then Inl CvError
           else Inr (Img3 (map (map (\<lambda>px.
                  (case f (px ! 0, px ! 1, px ! 2) of (a, b, c) \<Rightarrow> [a, b, c]))) rows))))"

definition cvtColor_BGR2HSV :: "cv2 \<Rightarrow> image \<Rightarrow> error + image" where
  "cvtColor_BGR2HSV lib src = convert_pixels (bgr2hsv lib) src"

definition cvtColor_HSV2BGR :: "cv2 \<Rightarrow> image \<Rightarrow> error + image" where
  "cvtColor_HSV2BGR lib src = convert_pixels (hsv2bgr lib) src"

definition cvtColor_GRAY2BGR :: "image \<Rightarrow> error + image" where
  "cvtColor_GRAY2BGR src =
     (case src of
        Img2 rows \<Rightarrow>
          (if rows = [] \<or> hd rows = [] then Inl CvError
           else Inr (Img3 (map (map (\<lambda>v. [v, v, v])) rows)))
      | Img3 rows \<Rightarrow> Inl CvError)"

text \<open>
  Line 232: \<^verbatim>\<open>hsv[:, :, 2] = hsv[:, :, 2] * transparency + lighting_mask * (1 - transparency)\<close>.
  The right-hand side is a float array; the assignment converts it to \<^verbatim>\<open>uint8\<close>. Operands
  of different shapes raise \<^verbatim>\<open>ValueError\<close> (the broadcasting of unit dimensions is not
  modelled).
\<close>

definition blend_value :: "real \<Rightarrow> byte \<Rightarrow> byte \<Rightarrow> byte" where
  "blend_value transparency v m =
     to_uint8 (real (unat v) * transparency + real (unat m) * (1 - transparency))"

definition blend :: "image \<Rightarrow> byte list list \<Rightarrow> real \<Rightarrow> error + image" where
  "blend hsv lighting_mask transparency =
     (case hsv of
        Img2 rows \<Rightarrow> Inl IndexError
      | Img3 rows \<Rightarrow>
          (if map length rows \<noteq> map length lighting_mask
              \<or> (\<exists>row \<in> set rows. \<exists>px \<in> set row. length px \<le> 2)
           then Inl ValueError
           else Inr (Img3 (map2 (map2 (\<lambda>px m. px[2 := blend_value transparency (px ! 2) m]))
                             rows lighting_mask))))"

text \<open>Lines 234 and 235: \<^verbatim>\<open>frame[frame > 255] = 255\<close>, then the cast to \<^verbatim>\<open>uint8\<close>.\<close>

fun clamp_255 :: "image \<Rightarrow> image" where
  "clamp_255 (Img2 rows) = Img2 (map (map (\<lambda>v. if 255 < unat v then 255 else v)) rows)"
| "clamp_255 (Img3 rows) =
     Img3 (map (map (map (\<lambda>v. if 255 < unat v then 255 else v))) rows)"

text \<open>
  Line 238: \<^verbatim>\<open>np.dstack((frame, image_alpha))\<close> appends the 2-D array as one more channel;
  arrays of different heights or widths raise \<^verbatim>\<open>ValueError\<close>.
\<close>

definition dstack :: "image \<Rightarrow> byte list list \<Rightarrow> error + image" where
  "dstack frame image_alpha =
     (case frame of
        Img2 rows \<Rightarrow>
          (if map length rows \<noteq> map length image_alpha then Inl ValueError
           else Inr (Img3 (map2 (map2 (\<lambda>v a. [v, a])) rows image_alpha)))
      | Img3 rows \<Rightarrow>
          (if map length rows \<noteq> map length image_alpha then Inl ValueError
           else Inr (Img3 (map2 (map2 (\<lambda>px a. px @ [a])) rows image_alpha))))"

subsection \<open>The augmentation\<close>

text \<open>The attributes set by the constructor (lines 53 to 61).\<close>

record lighting_gradient =
  self_light_position :: "(int \<times> int) option"
  self_direction :: "int option"
  self_max_brightness :: int
  self_min_brightness :: int
  self_mode :: string
  self_linear_decay_rate :: "real option"
  self_transparency :: "real option"
  self_numba_jit :: int
  self_p :: real

text \<open>
  What \<^verbatim>\<open>__call__\<close> returns when it runs: the frame, or the list of the frame and the three
  annotations when one of them was given.
\<close>

datatype ('i, 'm, 'k, 'b) outputs =
    Frame 'i
  | Frame_and_extra 'i "'m option" "'k option" "'b option"

fun output_image :: "('i, 'm, 'k, 'b) outputs \<Rightarrow> 'i" where
  "output_image (Frame frame) = frame"
| "output_image (Frame_and_extra frame _ _ _) = frame"

text \<open>Lines 241 to 250.\<close>

definition make_outputs ::
  "'i \<Rightarrow> 'm option \<Rightarrow> 'k option \<Rightarrow> 'b option \<Rightarrow> ('i, 'm, 'k, 'b) outputs"
where
  "make_outputs frame msk keypoints bounding_boxes =
     (if msk \<noteq> None \<or> keypoints \<noteq> None \<or> bounding_boxes \<noteq> None
      then Frame_and_extra frame msk keypoints bounding_boxes
      else Frame frame)"

text \<open>Lines 206 to 209: the alpha channel is split off a 4-channel frame.\<close>

definition split_alpha :: "image \<Rightarrow> bool \<times> image \<times> byte list list option" where
  "split_alpha frame =
     (if length (shape frame) > 2 \<and> shape frame ! 2 = 4
      then (True, first_channels 3 frame, Some (channel 3 frame))
      else (False, frame, None))"

text \<open>Lines 211 to 214.\<close>

definition resolve_transparency :: "lighting_gradient \<Rightarrow> rng \<Rightarrow> real \<times> rng" where
  "resolve_transparency self g =
     (case self_transparency self of
        None \<Rightarrow> uniform (5 / 10) (85 / 100) g
      | Some t \<Rightarrow> (t, g))"

text \<open>Lines 217 to 221.\<close>

definition to_hsv :: "cv2 \<Rightarrow> image \<Rightarrow> error + image" where
  "to_hsv lib frame =
     (if length (shape frame) > 2 then cvtColor_BGR2HSV lib frame
      else
        (case cvtColor_GRAY2BGR frame of
           Inl e \<Rightarrow> Inl e
         | Inr bgr \<Rightarrow> cvtColor_BGR2HSV lib bgr))"

text \<open>
  Modelled from the spec: \<^verbatim>\<open>should_run\<close>, a method of the base class \<^verbatim>\<open>Augmentation\<close>, which
  is not among the sources. The specification has the owner of the engine decide per call
  by a probability, and the docstring calls \<^verbatim>\<open>p\<close> the probability that the augmentation is
  applied: the method draws one number uniformly from \<open>[0, 1]\<close> and answers whether it is
  at most \<open>p\<close>.
\<close>

definition should_run :: "lighting_gradient \<Rightarrow> rng \<Rightarrow> bool \<times> rng" where
  "should_run self g = (let (r, g1) = uniform 0 1 g in (r \<le> self_p self, g1))"

text \<open>
  The guard of line 203, \<^verbatim>\<open>force or self.should_run()\<close>: the method is not called, and
  nothing is drawn, when \<open>force\<close> is true.
\<close>

definition gate :: "lighting_gradient \<Rightarrow> bool \<Rightarrow> rng \<Rightarrow> bool \<times> rng" where
  "gate self force g = (if force then (True, g) else should_run self g)"

text \<open>
  The body of the guard (lines 204 to 250); the unused argument \<^verbatim>\<open>layer\<close> is left out.
\<close>

definition apply_gradient ::
  "cv2 \<Rightarrow> lighting_gradient \<Rightarrow> rng \<Rightarrow> image \<Rightarrow> 'm option \<Rightarrow> 'k option \<Rightarrow> 'b option
     \<Rightarrow> error + (image, 'm, 'k, 'b) outputs option \<times> rng"
where
  "apply_gradient lib self g img msk keypoints bounding_boxes =
        (let frame = img;
             (has_alpha, frame1, image_alpha) = split_alpha frame;
             (transparency, g1) = resolve_transparency self g;
             height = shape frame1 ! 0;
             width = shape frame1 ! 1
         in case to_hsv lib frame1 of
              Inl e \<Rightarrow> Inl e
            | Inr hsv \<Rightarrow>
                (case generate_parallel_light_mask lib g1 (int width, int height)
                        (self_light_position self) (self_direction self)
                        (self_max_brightness self) (self_min_brightness self)
                        (self_mode self) (self_linear_decay_rate self) of
                   Inl e \<Rightarrow> Inl e
                 | Inr (lighting_mask, g2) \<Rightarrow>
                     (case blend hsv lighting_mask transparency of
                        Inl e \<Rightarrow> Inl e
                      | Inr hsv1 \<Rightarrow>
                          (case cvtColor_HSV2BGR lib hsv1 of
                             Inl e \<Rightarrow> Inl e
                           | Inr frame2 \<Rightarrow>
                               (case (if has_alpha then
                                        (case image_alpha of
                                           None \<Rightarrow> Inl UnboundLocalError
                                         | Some alpha \<Rightarrow> dstack (clamp_255 frame2) alpha)
                                      else Inr (clamp_255 frame2)) of
                                  Inl e \<Rightarrow> Inl e
                                | Inr frame3 \<Rightarrow>
                                    Inr (Some (make_outputs frame3 msk keypoints
                                                 bounding_boxes), g2))))))"

text \<open>
  \<^verbatim>\<open>__call__\<close> (lines 202 to 250). When the guard of line 203 fails the method falls off
  its end and returns \<^verbatim>\<open>None\<close>.
\<close>

definition call ::
  "cv2 \<Rightarrow> lighting_gradient \<Rightarrow> rng \<Rightarrow> image \<Rightarrow> 'm option \<Rightarrow> 'k option \<Rightarrow> 'b option \<Rightarrow> bool
     \<Rightarrow> error + (image, 'm, 'k, 'b) outputs option \<times> rng"
where
  "call lib self g img msk keypoints bounding_boxes force =
     (let (run, g0) = gate self force g
      in if run then apply_gradient lib self g0 img msk keypoints bounding_boxes
         else Inr (None, g0))"

subsection \<open>The augmentation on a store of buffers\<close>

text \<open>
  To speak about aliasing, the arrays live in a store: a list of buffers, the address of a
  buffer being its index. A new array is appended; an assignment through an index
  expression overwrites the buffer it addresses. A raised exception leaves the store as it
  is at that point, so the store is returned beside the result.
\<close>

type_synonym store = "image list"

definition alloc :: "image \<Rightarrow> store \<Rightarrow> nat \<times> store" where
  "alloc v s = (length s, s @ [v])"

text \<open>Lines 217 to 221 on the store: each conversion returns a new array.\<close>

definition to_hsv_store :: "cv2 \<Rightarrow> image \<Rightarrow> store \<Rightarrow> (error + nat) \<times> store" where
  "to_hsv_store lib frame s =
     (if length (shape frame) > 2 then
        (case cvtColor_BGR2HSV lib frame of
           Inl e \<Rightarrow> (Inl e, s)
         | Inr hsv \<Rightarrow> (let (a_hsv, s1) = alloc hsv s in (Inr a_hsv, s1)))
      else
        (case cvtColor_GRAY2BGR frame of
           Inl e \<Rightarrow> (Inl e, s)
         | Inr bgr \<Rightarrow>
             (let (a_bgr, s1) = alloc bgr s
              in case cvtColor_BGR2HSV lib (s1 ! a_bgr) of
                   Inl e \<Rightarrow> (Inl e, s1)
                 | Inr hsv \<Rightarrow> (let (a_hsv, s2) = alloc hsv s1 in (Inr a_hsv, s2)))))"

text \<open>
  The body of \<^verbatim>\<open>__call__\<close> on the store, statement by statement, and then the method with
  its guard; \<open>a\<close> is the address of the caller's image. The slices of line 209 are views of the copy: they are read through its address.
  The mask is the new array returned by the mask generation. Lines 232 and 234 assign in
  place.
\<close>

definition apply_gradient_store ::
  "cv2 \<Rightarrow> lighting_gradient \<Rightarrow> rng \<Rightarrow> store \<Rightarrow> nat \<Rightarrow> 'm option \<Rightarrow> 'k option \<Rightarrow> 'b option
     \<Rightarrow> (error + (nat, 'm, 'k, 'b) outputs option \<times> rng) \<times> store"
where
  "apply_gradient_store lib self g s a msk keypoints bounding_boxes =
        (let (a_frame, s1) = alloc (s ! a) s;
             has_alpha = (length (shape (s1 ! a_frame)) > 2 \<and> shape (s1 ! a_frame) ! 2 = 4);
             frame1 = (if has_alpha then first_channels 3 (s1 ! a_frame) else s1 ! a_frame);
             (transparency, g1) = resolve_transparency self g;
             height = shape frame1 ! 0;
             width = shape frame1 ! 1
         in case to_hsv_store lib frame1 s1 of
              (Inl e, s2) \<Rightarrow> (Inl e, s2)
            | (Inr a_hsv, s2) \<Rightarrow>
                (case generate_parallel_light_mask lib g1 (int width, int height)
                        (self_light_position self) (self_direction self)
                        (self_max_brightness self) (self_min_brightness self)
                        (self_mode self) (self_linear_decay_rate self) of
                   Inl e \<Rightarrow> (Inl e, s2)
                 | Inr (lighting_mask, g2) \<Rightarrow>
                     (let (a_mask, s3) = alloc (Img2 lighting_mask) s2
                      in case blend (s3 ! a_hsv) (channel 0 (s3 ! a_mask)) transparency of
                           Inl e \<Rightarrow> (Inl e, s3)
                         | Inr hsv1 \<Rightarrow>
                             (let s4 = s3[a_hsv := hsv1]
                              in case cvtColor_HSV2BGR lib (s4 ! a_hsv) of
                                   Inl e \<Rightarrow> (Inl e, s4)
                                 | Inr frame2 \<Rightarrow>
                                     (let (a_frame2, s5) = alloc frame2 s4;
                                          s6 = s5[a_frame2 := clamp_255 (s5 ! a_frame2)]
                                      in if has_alpha then
                                           (case dstack (s6 ! a_frame2)
                                                   (channel 3 (s6 ! a_frame)) of
                                              Inl e \<Rightarrow> (Inl e, s6)
                                            | Inr frame3 \<Rightarrow>
                                                (let (a_out, s7) = alloc frame3 s6
                                                 in (Inr (Some (make_outputs a_out msk keypoints
                                                        bounding_boxes), g2), s7)))
                                         else
                                           (Inr (Some (make_outputs a_frame2 msk keypoints
                                                  bounding_boxes), g2), s6))))))"

definition call_store ::
  "cv2 \<Rightarrow> lighting_gradient \<Rightarrow> rng \<Rightarrow> store \<Rightarrow> nat \<Rightarrow> 'm option \<Rightarrow> 'k option \<Rightarrow> 'b option \<Rightarrow> bool
     \<Rightarrow> (error + (nat, 'm, 'k, 'b) outputs option \<times> rng) \<times> store"
where
  "call_store lib self g s a msk keypoints bounding_boxes force =
     (let (run, g0) = gate self force g
      in if run then apply_gradient_store lib self g0 s a msk keypoints bounding_boxes
         else (Inr (None, g0), s))"

text \<open>
  A store extends another when it holds every buffer of the other, at the same address
  and with the same content.
\<close>

definition extends :: "store \<Rightarrow> store \<Rightarrow> bool" where
  "extends s s' = (length s \<le> length s' \<and> take (length s) s' = s)"

text \<open>The outputs of the store model, with the address replaced by the buffer it holds.\<close>

fun load_outputs :: "store \<Rightarrow> (nat, 'm, 'k, 'b) outputs \<Rightarrow> (image, 'm, 'k, 'b) outputs" where
  "load_outputs s (Frame r) = Frame (s ! r)"
| "load_outputs s (Frame_and_extra r m k b) = Frame_and_extra (s ! r) m k b"

subsection \<open>Well-formed images\<close>

text \<open>
  A 2-D array of \<open>h\<close> rows and \<open>w\<close> columns; a non-empty \<open>h \<times> w\<close> image, grey-scale as a 2-D
  array or with \<open>c\<close> channels per pixel.
\<close>

definition has_dims :: "'a list list \<Rightarrow> nat \<Rightarrow> nat \<Rightarrow> bool" where
  "has_dims rows h w = (length rows = h \<and> list_all (\<lambda>row. length row = w) rows)"

definition gray_image :: "nat \<Rightarrow> nat \<Rightarrow> image \<Rightarrow> bool" where
  "gray_image h w img =
     (case img of
        Img2 rows \<Rightarrow> 0 < h \<and> 0 < w \<and> length rows = h \<and> list_all (\<lambda>row. length row = w) rows
      | Img3 rows \<Rightarrow> False)"

definition colour_image :: "nat \<Rightarrow> nat \<Rightarrow> nat \<Rightarrow> image \<Rightarrow> bool" where
  "colour_image h w c img =
     (case img of
        Img2 rows \<Rightarrow> False
      | Img3 rows \<Rightarrow>
          0 < h \<and> 0 < w \<and> length rows = h
          \<and> list_all (\<lambda>row. length row = w \<and> list_all (\<lambda>px. length px = c) row) rows)"

subsection \<open>The profiles as the specification words them\<close>


text \<open>
  Gaussian mode, in the words of the specification: with \<open>radius = grange / 3\<close> and
  \<open>u = (x - c) / |radius|\<close>, the ratio of the normal density at \<open>u\<close> to the density at \<open>0\<close>,
  rescaled: \<^verbatim>\<open>value = ratio * (max - min) + min\<close>.
\<close>

definition gaussian_profile_spec :: "int \<Rightarrow> int \<Rightarrow> int \<Rightarrow> int \<Rightarrow> nat \<Rightarrow> real" where
  "gaussian_profile_spec max_brightness min_brightness center grange x =
     exp (- (((real x - real_of_int center) / \<bar>real_of_int grange / 3\<bar>)\<^sup>2) / 2)
       * (real_of_int max_brightness - real_of_int min_brightness)
     + real_of_int min_brightness"

subsection \<open>An instance of the parameters\<close>

text \<open>
  A simple instance of the OpenCV parameters, to run the model on concrete inputs: the
  value of a pixel is its largest sample, a colour is rebuilt as the grey of its value,
  and the warp reads the source at the destination coordinates.
\<close>

definition cv2_plain :: cv2 where
  "cv2_plain =
     \<lparr>bgr2hsv = (\<lambda>(b, g, r). (0, 0, max b (max g r))),
      hsv2bgr = (\<lambda>(h, s, v). (v, v, v)),
      warp_sample = (\<lambda>src center angle x y. src ! y ! x)\<rparr>"

text \<open>The augmentation as the constructor builds it from its default arguments.\<close>

definition default_gradient :: lighting_gradient where
  "default_gradient =
     \<lparr>self_light_position = None, self_direction = None, self_max_brightness = 255,
      self_min_brightness = 0, self_mode = ''gaussian'', self_linear_decay_rate = None,
      self_transparency = None, self_numba_jit = 1, self_p = 1\<rparr>"

section \<open>Properties\<close>

subsection \<open>The gate of the call\<close>

text \<open>
  Claim C4, as amended. When the gate decides that the augmentation does not run (\<open>force\<close>
  is false and \<open>should_run()\<close> answers false), \<^verbatim>\<open>__call__\<close> returns \<^verbatim>\<open>None\<close>, not the input
  image; the random source is left as \<open>should_run()\<close> left it.
\<close>

theorem call_not_run_returns_None:
  "\<not> force \<Longrightarrow> should_run self g = (False, g1) \<Longrightarrow>
     call lib self g img msk keypoints bounding_boxes force = Inr (None, g1)"
  by (simp add: call_def gate_def)

lemma should_run_half:
  "should_run (default_gradient\<lparr>self_p := 1 / 2\<rparr>) (sconst 9007199254740991)
     = (False, sconst 9007199254740991)"
  by (simp add: should_run_def uniform_def)

theorem call_not_run_returns_None_witness:
  "\<not> False
   \<and> should_run (default_gradient\<lparr>self_p := 1 / 2\<rparr>) (sconst 9007199254740991)
       = (False, sconst 9007199254740991)
   \<and> call cv2_plain (default_gradient\<lparr>self_p := 1 / 2\<rparr>) (sconst 9007199254740991)
         (Img2 [[7]]) (None :: unit option) (None :: unit option) (None :: unit option) False
       = Inr (None, sconst 9007199254740991)"
  using should_run_half
    call_not_run_returns_None [OF _ should_run_half, of False cv2_plain "Img2 [[7]]"
      "None :: unit option" "None :: unit option" "None :: unit option"]
  by simp

text \<open>
  Claim C4 as stated fails: with \<open>p = 1 / 2\<close>, a draw above one half and \<open>force\<close> false, the
  call on a 1 by 1 grey image returns \<^verbatim>\<open>None\<close>, which is not the input image.
\<close>

theorem call_not_run_counterexample:
  "call cv2_plain (default_gradient\<lparr>self_p := 1 / 2\<rparr>) (sconst 9007199254740991)
       (Img2 [[7]]) (None :: unit option) (None :: unit option) (None :: unit option) False
     = Inr (None, sconst 9007199254740991)
   \<and> (None :: (image, unit, unit, unit) outputs option) \<noteq> Some (Frame (Img2 [[7]]))"
  using should_run_half by (simp add: call_def gate_def)

subsection \<open>The fallback of the mode\<close>

lemma normalise_mode_invalid:
  "mode \<notin> set [''linear_dynamic'', ''linear_static'', ''gaussian''] \<Longrightarrow>
     normalise_mode mode = ''gaussian''"
  by (simp add: normalise_mode_def)

lemma resolve_decay_rate_invalid:
  "mode \<notin> set [''linear_dynamic'', ''linear_static'', ''gaussian''] \<Longrightarrow>
     resolve_decay_rate mode linear_decay_rate g
     = resolve_decay_rate ''gaussian'' linear_decay_rate g"
  by (simp add: resolve_decay_rate_def)

lemma normalise_mode_gaussian: "normalise_mode ''gaussian'' = ''gaussian''"
  by (simp add: normalise_mode_def)

lemma resolve_parameters_invalid:
  assumes "mode \<notin> set [''linear_dynamic'', ''linear_static'', ''gaussian'']"
  shows "resolve_parameters g mask_size position direction max_brightness min_brightness mode
           linear_decay_rate
         = resolve_parameters g mask_size position direction max_brightness min_brightness
             ''gaussian'' linear_decay_rate"
  unfolding resolve_parameters_def
    resolve_decay_rate_invalid [OF assms] normalise_mode_invalid [OF assms]
    normalise_mode_gaussian
  by (rule refl)

text \<open>
  Claim C9. With a mode that is none of \<^verbatim>\<open>linear_dynamic\<close>, \<^verbatim>\<open>linear_static\<close> and
  \<^verbatim>\<open>gaussian\<close>, the mask generation returns what it returns with mode \<^verbatim>\<open>gaussian\<close> and all
  other arguments equal: the same mask or the same exception, and the same state of the
  random source afterwards.
\<close>

theorem invalid_mode_is_gaussian:
  assumes "mode \<notin> set [''linear_dynamic'', ''linear_static'', ''gaussian'']"
  shows "generate_parallel_light_mask lib g mask_size position direction max_brightness
           min_brightness mode linear_decay_rate
         = generate_parallel_light_mask lib g mask_size position direction max_brightness
             min_brightness ''gaussian'' linear_decay_rate"
  unfolding generate_parallel_light_mask_def resolve_parameters_invalid [OF assms]
  by (rule refl)

theorem invalid_mode_is_gaussian_witness:
  "''not_a_mode'' \<notin> set [''linear_dynamic'', ''linear_static'', ''gaussian''] \<and>
     generate_parallel_light_mask cv2_plain (sconst 0) (3, 2) None None 255 0 ''not_a_mode'' None
     = generate_parallel_light_mask cv2_plain (sconst 0) (3, 2) None None 255 0 ''gaussian'' None"
  using invalid_mode_is_gaussian [of "''not_a_mode''" cv2_plain "sconst 0" "(3, 2)" None None
      255 0 None]
  by simp

subsection \<open>The decay kernels\<close>

lemma set_row_length_row:
  "x < length msk \<Longrightarrow> length ((msk[x := replicate (length (msk ! x)) v]) ! i) = length (msk ! i)"
  by (cases "i = x") simp_all

lemma fill_rows_ok:
  assumes "\<forall>x \<in> set xs. x < length msk" and "\<forall>x \<in> set xs. body x = Inr (f x)"
  shows "\<exists>msk'. fill_rows body xs (msk, l)
             = Inr (msk', if xs = [] then l else Some (f (last xs)))
           \<and> length msk' = length msk
           \<and> (\<forall>i < length msk. msk' ! i
                 = (if i \<in> set xs then replicate (length (msk ! i)) (f i) else msk ! i))"
  using assms
proof (induction xs arbitrary: msk l)
  case Nil
  then show ?case by simp
next
  case (Cons x xs)
  let ?m1 = "msk[x := replicate (length (msk ! x)) (f x)]"
  have x: "x < length msk" and bx: "body x = Inr (f x)" using Cons.prems by simp_all
  have "\<forall>y \<in> set xs. y < length ?m1" and "\<forall>y \<in> set xs. body y = Inr (f y)"
    using Cons.prems by simp_all
  from Cons.IH [OF this, of "Some (f x)"] obtain msk' where
    r: "fill_rows body xs (?m1, Some (f x)) = Inr (msk', if xs = [] then Some (f x) else Some (f (last xs)))"
    and len: "length msk' = length ?m1"
    and rows: "\<forall>i < length ?m1. msk' ! i
                 = (if i \<in> set xs then replicate (length (?m1 ! i)) (f i) else ?m1 ! i)"
    by blast
  have "fill_rows body (x # xs) (msk, l) = Inr (msk', Some (f (last (x # xs))))"
    using r x bx by (simp add: set_row_def)
  moreover have "length msk' = length msk" using len by simp
  moreover have "\<forall>i < length msk. msk' ! i
      = (if i \<in> set (x # xs) then replicate (length (msk ! i)) (f i) else msk ! i)"
  proof (intro allI impI)
    fix i assume i: "i < length msk"
    then have "msk' ! i = (if i \<in> set xs then replicate (length (?m1 ! i)) (f i) else ?m1 ! i)"
      using rows by simp
    then show "msk' ! i = (if i \<in> set (x # xs) then replicate (length (msk ! i)) (f i) else msk ! i)"
      using i x set_row_length_row [OF x, of "f x" i] by (cases "i = x") auto
  qed
  ultimately show ?case by auto
qed

lemma fill_rows_error:
  "x < length msk \<Longrightarrow> body x = Inl e \<Longrightarrow> fill_rows body (x # xs) (msk, l) = Inl e"
  by simp




lemma py_range_set: "x \<in> set (py_range n) \<longleftrightarrow> x < nat n"
  by (simp add: py_range_def)

lemma py_range_last: "0 < n \<Longrightarrow> py_range n \<noteq> [] \<and> last (py_range n) = nat n - 1"
  by (simp add: py_range_def)






lemma norm_value_eq:
  assumes "grange \<noteq> 0"
  shows "norm_value max_value min_value center grange x
           = Inr (gaussian_profile_spec (min_value + int64 (max_value - min_value)) min_value
                    center grange x)"
proof -
  have r: "\<bar>real_of_int grange\<bar> / 3 \<noteq> 0" using assms by simp
  have s: "sqrt (2 * pi) \<noteq> 0" by simp
  show ?thesis
    using r s
    by (simp add: norm_value_def gaussian_profile_spec_def Let_def power2_eq_square
        algebra_simps)
qed




lemma apply_decay_value_norm_rows:
  assumes "grange \<noteq> 0" and "nat canvas_y \<le> length msk"
  shows "\<exists>msk'. apply_decay_value_norm msk canvas_y max_value min_value center grange = Inr msk'
           \<and> length msk' = length msk
           \<and> (\<forall>x < length msk. msk' ! x =
                 (if x < nat canvas_y
                  then replicate (length (msk ! x))
                         (gaussian_profile_spec
                            (min_value + int64 (max_value - min_value)) min_value center grange x)
                  else msk ! x))"
proof -
  let ?f = "gaussian_profile_spec (min_value + int64 (max_value - min_value)) min_value center grange"
  have a: "\<forall>x \<in> set (py_range canvas_y). x < length msk"
    using assms(2) by (auto simp: py_range_set)
  have b: "\<forall>x \<in> set (py_range canvas_y).
      norm_value max_value min_value center grange x = Inr (?f x)"
    using norm_value_eq [OF assms(1)] by simp
  from fill_rows_ok [OF a b, of None] obtain msk' where
    r: "fill_rows (norm_value max_value min_value center grange) (py_range canvas_y) (msk, None)
          = Inr (msk', if py_range canvas_y = [] then None else Some (?f (last (py_range canvas_y))))"
    and len: "length msk' = length msk"
    and rows: "\<forall>i < length msk. msk' ! i
        = (if i \<in> set (py_range canvas_y) then replicate (length (msk ! i)) (?f i) else msk ! i)"
    by blast
  have "apply_decay_value_norm msk canvas_y max_value min_value center grange = Inr msk'"
    using r by (simp add: apply_decay_value_norm_def)
  with len rows show ?thesis by (auto simp: py_range_set)
qed




text \<open>
  The other hypothesis is needed as well: with \<open>max_value = 2 ^ 62\<close> and
  \<open>min_value = - (2 ^ 62)\<close> the difference wraps around to \<open>- (2 ^ 63)\<close>, and the row of the
  centre holds \<open>- (2 ^ 63) - 2 ^ 62\<close>, below \<open>min_value\<close>.
\<close>

lemma gaussian_wrap_example:
  "apply_decay_value_norm [[0]] 1 (2 ^ 62) (- (2 ^ 62)) 0 3 = Inr [[- (2 ^ 63) - 2 ^ 62]]"
proof -
  have i: "int64 9223372036854775808 = - 9223372036854775808"
    by (simp add: int64_def)
  have "py_range 1 = [0]" by (simp add: py_range_def)
  then show ?thesis
    using norm_value_eq [of 3 "2 ^ 62" "- (2 ^ 62)" 0 0]
    by (simp add: apply_decay_value_norm_def set_row_def gaussian_profile_spec_def i)
qed

subsection \<open>The resolved direction\<close>

lemma resolve_direction_None:
  "resolve_direction None g = Inr (int (shd g mod 361), stl g)"
  by (simp add: resolve_direction_def randint_def)

lemma resolve_parameters_direction:
  assumes "resolve_parameters g mask_size position direction max_brightness min_brightness mode
             linear_decay_rate = Inr (rp, g')"
  shows "\<exists>g1 g2. resolve_direction direction g1 = Inr (res_direction rp, g2)"
  using assms
  by (fastforce simp: resolve_parameters_def Let_def split: sum.splits prod.splits)

lemma resolve_parameters_fixed_position:
  "0 \<le> d \<Longrightarrow> d \<le> 360 \<Longrightarrow>
     resolve_parameters (sconst (nat d)) mask_size (Some pos) None max_brightness min_brightness
         ''gaussian'' linear_decay_rate
     = Inr (\<lparr>res_position = pos, res_direction = d, res_mode = ''gaussian'',
             res_decay_rate = linear_decay_rate\<rparr>, sconst (nat d))"
  by (simp add: resolve_parameters_def resolve_position_def resolve_direction_None
      resolve_decay_rate_def normalise_mode_def dynamic_decay_rate_def split: option.splits)

text \<open>
  Claim C7 as stated fails: line 103 is \<^verbatim>\<open>random.randint(0, 360)\<close>, whose upper end is
  included. With a random source whose next draw is \<open>360\<close>, the resolved direction is \<open>360\<close>.
\<close>

theorem direction_360_counterexample:
  "resolve_parameters (sconst 360) (2, 2) (Some (0, 0)) None 255 0 ''gaussian'' None
     = Inr (\<lparr>res_position = (0, 0), res_direction = 360, res_mode = ''gaussian'',
             res_decay_rate = None\<rparr>, sconst 360)"
  using resolve_parameters_fixed_position [of 360 "(2, 2)" "(0, 0)" 255 0 None] by simp

text \<open>
  Claim C7, as amended. Whenever the direction is unset, the resolved direction is an
  integer of the closed interval \<open>[0, 360]\<close>, and every integer of that interval, \<open>360\<close>
  included, is the resolved direction for some state of the random source.
\<close>

theorem direction_sampled_in_closed_range:
  assumes "resolve_parameters g mask_size position None max_brightness min_brightness mode
             linear_decay_rate = Inr (rp, g')"
  shows "0 \<le> res_direction rp \<and> res_direction rp \<le> 360
         \<and> (\<forall>d \<in> {0 .. 360}. \<exists>g0 rp0 g0'.
               resolve_parameters g0 mask_size (Some (res_position rp)) None max_brightness
                   min_brightness ''gaussian'' linear_decay_rate = Inr (rp0, g0')
               \<and> res_direction rp0 = d)"
proof -
  from resolve_parameters_direction [OF assms] obtain g1 g2 where
    "resolve_direction None g1 = Inr (res_direction rp, g2)" by blast
  then have "res_direction rp = int (shd g1 mod 361)"
    by (simp add: resolve_direction_None)
  then have "0 \<le> res_direction rp \<and> res_direction rp \<le> 360" by simp
  moreover have "\<forall>d \<in> {0 .. 360}. \<exists>g0 rp0 g0'.
               resolve_parameters g0 mask_size (Some (res_position rp)) None max_brightness
                   min_brightness ''gaussian'' linear_decay_rate = Inr (rp0, g0')
               \<and> res_direction rp0 = d"
  proof
    fix d :: int assume "d \<in> {0 .. 360}"
    then have "0 \<le> d" "d \<le> 360" by simp_all
    from resolve_parameters_fixed_position [OF this]
    show "\<exists>g0 rp0 g0'.
               resolve_parameters g0 mask_size (Some (res_position rp)) None max_brightness
                   min_brightness ''gaussian'' linear_decay_rate = Inr (rp0, g0')
               \<and> res_direction rp0 = d"
      by (metis resolved.select_convs(2))
  qed
  ultimately show ?thesis by blast
qed

theorem direction_sampled_in_closed_range_witness:
  "resolve_parameters (sconst 360) (2, 2) (Some (0, 0)) None 255 0 ''gaussian'' None
     = Inr (\<lparr>res_position = (0, 0), res_direction = 360, res_mode = ''gaussian'',
             res_decay_rate = None\<rparr>, sconst 360)
   \<and> (0::int) \<le> 360 \<and> (360::int) \<le> 360
   \<and> (\<exists>g0 rp0 g0'.
         resolve_parameters g0 (2, 2) (Some (0, 0)) None 255 0 ''gaussian'' None = Inr (rp0, g0')
         \<and> res_direction rp0 = 360)"
proof -
  have h: "resolve_parameters (sconst 360) (2, 2) (Some (0, 0)) None 255 0 ''gaussian'' None
     = Inr (\<lparr>res_position = (0, 0), res_direction = 360, res_mode = ''gaussian'',
             res_decay_rate = None\<rparr>, sconst 360)"
    using resolve_parameters_fixed_position [of 360 "(2, 2)" "(0, 0)" 255 0 None] by simp
  show ?thesis
    using h direction_sampled_in_closed_range [OF h] by simp
qed

subsection \<open>The exceptions of the mask generation\<close>

lemma padding_ge:
  assumes "0 \<le> max (fst mask_size) (snd mask_size)"
  shows "max (fst mask_size) (snd mask_size) \<le> padding_of mask_size"
proof -
  let ?m = "max (fst mask_size) (snd mask_size)"
  have "1 \<le> sqrt 2" by simp
  then have "real_of_int ?m * 1 \<le> real_of_int ?m * sqrt 2"
    using assms by (intro mult_left_mono) simp_all
  then have le: "real_of_int ?m \<le> real_of_int ?m * sqrt 2" by simp
  then have "0 \<le> real_of_int ?m * sqrt 2" using assms by linarith
  moreover have "?m \<le> \<lfloor>real_of_int ?m * sqrt 2\<rfloor>" using le by (simp add: le_floor_iff)
  ultimately show ?thesis by (simp add: py_int_def padding_of_def)
qed

lemma fill_rows_error_kind:
  assumes "\<And>x e. body x = Inl e \<Longrightarrow> P e" and "P IndexError"
    and "fill_rows body xs st = Inl e"
  shows "P e"
  using assms(3)
proof (induction xs arbitrary: st)
  case Nil
  then show ?case by simp
next
  case (Cons x xs)
  obtain msk l where st: "st = (msk, l)" by (cases st)
  show ?case
  proof (cases "body x")
    case (Inl e')
    then show ?thesis using Cons.prems st assms(1) by simp
  next
    case (Inr v)
    show ?thesis
    proof (cases "x < length msk")
      case True
      then show ?thesis using Cons.prems st Inr Cons.IH by (simp add: set_row_def)
    next
      case False
      then show ?thesis using Cons.prems st Inr assms(2) by (simp add: set_row_def)
    qed
  qed
qed

lemma norm_value_error:
  "norm_value max_value min_value center grange x = Inl e \<Longrightarrow> e \<noteq> InvalidDimensions"
  by (auto simp: norm_value_def Let_def split: if_splits)

lemma apply_decay_value_norm_error:
  assumes "apply_decay_value_norm msk canvas_y max_value min_value center grange = Inl e"
  shows "e \<noteq> InvalidDimensions"
proof -
  from assms have "fill_rows (norm_value max_value min_value center grange) (py_range canvas_y)
      (msk, None) = Inl e"
    by (simp add: apply_decay_value_norm_def split: sum.splits prod.splits)
  then show ?thesis
    by (rule fill_rows_error_kind [rotated 2]) (simp_all add: norm_value_error)
qed

lemma apply_decay_value_linear_error:
  assumes "apply_decay_value_linear msk canvas_y max_value padding_center decay_rate = Inl e"
  shows "e \<noteq> InvalidDimensions"
proof (cases "fill_rows (\<lambda>x. Inr (linear_value max_value padding_center decay_rate x))
      (py_range canvas_y) (msk, None)")
  case (Inl e')
  then have "e' \<noteq> InvalidDimensions"
    by (rule fill_rows_error_kind [rotated 2]) simp_all
  with Inl assms show ?thesis by (simp add: apply_decay_value_linear_def)
next
  case (Inr r)
  with assms show ?thesis
    by (auto simp: apply_decay_value_linear_def split: prod.splits option.splits)
qed


lemma randint_error: "randint a b g = Inl e \<Longrightarrow> e \<noteq> InvalidDimensions"
  by (auto simp: randint_def split: if_splits)

lemma resolve_position_error:
  "resolve_position mask_size position g = Inl e \<Longrightarrow> e \<noteq> InvalidDimensions"
  unfolding resolve_position_def
  by (auto split: option.splits sum.splits dest: randint_error)

lemma resolve_direction_error:
  "resolve_direction direction g = Inl e \<Longrightarrow> e \<noteq> InvalidDimensions"
  unfolding resolve_direction_def
  by (auto split: option.splits dest: randint_error)

lemma dynamic_decay_rate_error:
  "dynamic_decay_rate mask_size max_brightness min_brightness mode rate = Inl e
     \<Longrightarrow> e \<noteq> InvalidDimensions"
  by (auto simp: dynamic_decay_rate_def split: if_splits)

lemma resolve_parameters_error:
  "resolve_parameters g mask_size position direction max_brightness min_brightness mode
     linear_decay_rate = Inl e \<Longrightarrow> e \<noteq> InvalidDimensions"
  unfolding resolve_parameters_def Let_def
  by (auto split: sum.splits prod.splits
      dest: resolve_position_error resolve_direction_error dynamic_decay_rate_error)

lemma np_zeros_error: "np_zeros r c = Inl e \<Longrightarrow> e \<noteq> InvalidDimensions"
  by (auto simp: np_zeros_def split: if_splits)

lemma warpAffine_error:
  "warpAffine lib src center angle dsize = Inl e \<Longrightarrow> e \<noteq> InvalidDimensions"
  by (auto simp: warpAffine_def Let_def split: if_splits prod.splits)

lemma medianBlur_error: "medianBlur src k = Inl e \<Longrightarrow> e \<noteq> InvalidDimensions"
  by (auto simp: medianBlur_def split: if_splits)

lemma fill_profile_error:
  assumes "fill_profile rp msk canvas_y max_brightness min_brightness c grange = Inl e"
  shows "e \<noteq> InvalidDimensions"
proof (cases "res_mode rp = ''gaussian''")
  case True
  with assms show ?thesis by (simp add: fill_profile_def apply_decay_value_norm_error)
next
  case False
  show ?thesis
  proof (cases "res_decay_rate rp")
    case None
    with False assms show ?thesis by (auto simp: fill_profile_def)
  next
    case (Some rate)
    with False assms apply_decay_value_linear_error [of msk canvas_y max_brightness c rate]
    show ?thesis by (auto simp: fill_profile_def split: sum.splits prod.splits)
  qed
qed

lemma build_mask_error:
  assumes "build_mask lib mask_size rp max_brightness min_brightness = Inl e"
  shows "e \<noteq> InvalidDimensions"
  using assms
  unfolding build_mask_def Let_def
  by (auto split: sum.splits dest: np_zeros_error warpAffine_error medianBlur_error
      fill_profile_error)

lemma generate_error:
  "generate_parallel_light_mask lib g mask_size position direction max_brightness
     min_brightness mode linear_decay_rate = Inl e \<Longrightarrow> e \<noteq> InvalidDimensions"
  unfolding generate_parallel_light_mask_def
  by (auto split: sum.splits prod.splits dest: resolve_parameters_error build_mask_error)


lemma resolve_position_ok:
  assumes "0 \<le> fst mask_size" and "0 \<le> snd mask_size"
  shows "\<exists>pos g'. resolve_position mask_size position g = Inr (pos, g')"
  using assms by (cases position) (simp_all add: resolve_position_def randint_def)

lemma resolve_direction_ok: "\<exists>d g'. resolve_direction direction g = Inr (d, g')"
  by (cases direction) (simp_all add: resolve_direction_def randint_def)

lemma resolve_decay_rate_static:
  "resolve_decay_rate ''linear_static'' linear_decay_rate g = (r, g') \<Longrightarrow> r \<noteq> None"
  by (cases linear_decay_rate) (auto simp: resolve_decay_rate_def uniform_def)

lemma normalise_mode_cases:
  "normalise_mode mode = ''gaussian'' \<or> (normalise_mode mode = mode
     \<and> (mode = ''linear_static'' \<or> mode = ''linear_dynamic''))"
  by (auto simp: normalise_mode_def)

lemma resolve_parameters_ok:
  assumes "0 \<le> fst mask_size" and "0 \<le> snd mask_size"
    and "normalise_mode mode = ''linear_dynamic'' \<longrightarrow> max (fst mask_size) (snd mask_size) \<noteq> 0"
  shows "\<exists>rp g'. resolve_parameters g mask_size position direction max_brightness
                     min_brightness mode linear_decay_rate = Inr (rp, g')
           \<and> res_mode rp = normalise_mode mode
           \<and> (res_mode rp \<noteq> ''gaussian'' \<longrightarrow> res_decay_rate rp \<noteq> None)"
proof -
  obtain pos g1 where p: "resolve_position mask_size position g = Inr (pos, g1)"
    using resolve_position_ok [OF assms(1,2)] by blast
  obtain d g2 where d: "resolve_direction direction g1 = Inr (d, g2)"
    using resolve_direction_ok by blast
  obtain r g3 where r: "resolve_decay_rate mode linear_decay_rate g2 = (r, g3)"
    by (cases "resolve_decay_rate mode linear_decay_rate g2")
  let ?m = "normalise_mode mode"
  show ?thesis
  proof (cases "?m = ''linear_dynamic''")
    case True
    then have z: "max (fst mask_size) (snd mask_size) \<noteq> 0" using assms(3) by simp
    show ?thesis
      using p d r True z
      by (simp add: resolve_parameters_def dynamic_decay_rate_def)
  next
    case False
    have dyn: "dynamic_decay_rate mask_size max_brightness min_brightness ?m r = Inr r"
      using False by (simp add: dynamic_decay_rate_def)
    have "?m \<noteq> ''gaussian'' \<longrightarrow> r \<noteq> None"
    proof
      assume "?m \<noteq> ''gaussian''"
      then have "mode = ''linear_static''"
        using normalise_mode_cases [of mode] False by auto
      then show "r \<noteq> None" using r resolve_decay_rate_static by blast
    qed
    then show ?thesis
      using p d r dyn by (simp add: resolve_parameters_def)
  qed
qed

lemma apply_decay_value_norm_zero:
  assumes "0 < canvas_y"
  shows "apply_decay_value_norm msk canvas_y max_value min_value center 0
           = Inl ZeroDivisionError"
proof -
  have "py_range canvas_y = 0 # [1 ..< nat canvas_y]"
    using assms by (simp add: py_range_def upt_conv_Cons)
  moreover have "norm_value max_value min_value center 0 0 = Inl ZeroDivisionError"
    by (simp add: norm_value_def)
  ultimately show ?thesis
    by (simp add: apply_decay_value_norm_def)
qed

lemma build_mask_zero_height:
  assumes "0 < w" and "res_mode rp = ''gaussian''"
  shows "build_mask lib (w, 0) rp max_brightness min_brightness = Inl ZeroDivisionError"
proof -
  let ?p = "padding_of (w, 0)"
  have "max w 0 \<le> ?p" using padding_ge [of "(w, 0)"] assms(1) by simp
  then have p: "w \<le> ?p" by simp
  then have cy: "0 < ?p * 2" and cx: "0 \<le> ?p * 2 + w" using assms(1) by simp_all
  have z: "np_zeros (?p * 2) (?p * 2 + w)
             = Inr (replicate (nat (?p * 2)) (replicate (nat (?p * 2 + w)) 0))"
    using cy cx by (simp add: np_zeros_def)
  show ?thesis
    unfolding build_mask_def Let_def
    by (simp add: z assms(2) fill_profile_def apply_decay_value_norm_zero [OF cy])
qed

lemma generate_zero_height:
  assumes "0 < w" and "normalise_mode mode = ''gaussian''"
  shows "generate_parallel_light_mask lib g (w, 0) position direction max_brightness
           min_brightness mode linear_decay_rate = Inl ZeroDivisionError"
proof -
  have "\<exists>rp g'. resolve_parameters g (w, 0) position direction max_brightness
                     min_brightness mode linear_decay_rate = Inr (rp, g')
           \<and> res_mode rp = normalise_mode mode
           \<and> (res_mode rp \<noteq> ''gaussian'' \<longrightarrow> res_decay_rate rp \<noteq> None)"
    using assms by (intro resolve_parameters_ok) simp_all
  then obtain rp g' where
    r: "resolve_parameters g (w, 0) position direction max_brightness
          min_brightness mode linear_decay_rate = Inr (rp, g')"
    and m: "res_mode rp = ''gaussian''"
    using assms(2) by auto
  show ?thesis
    by (simp add: generate_parallel_light_mask_def r build_mask_zero_height [OF assms(1) m])
qed

subsection \<open>The size of the mask\<close>

lemma has_dims_nth:
  "has_dims rows h w \<longleftrightarrow> length rows = h \<and> (\<forall>i < h. length (rows ! i) = w)"
  by (auto simp: has_dims_def list_all_length)

lemma has_dims_replicate: "has_dims (replicate h (replicate w v)) h w"
  by (simp add: has_dims_nth)

lemma has_dims_map_map: "has_dims rows h w \<Longrightarrow> has_dims (map (map f) rows) h w"
  by (simp add: has_dims_nth)

lemma has_dims_nonempty:
  assumes "has_dims rows h w" and "0 < h" and "0 < w"
  shows "rows \<noteq> [] \<and> hd rows \<noteq> [] \<and> length (hd rows) = w"
proof -
  have "rows \<noteq> []" using assms(1,2) by (auto simp: has_dims_def)
  moreover from this have "length (hd rows) = w"
    using assms(1) by (cases rows) (simp_all add: has_dims_def)
  ultimately show ?thesis using assms(3) by auto
qed

lemma set_row_dims:
  "set_row msk x v = Inr msk' \<Longrightarrow> has_dims msk h w \<Longrightarrow> has_dims msk' h w"
  by (auto simp: set_row_def has_dims_nth nth_list_update split: if_splits)

lemma fill_rows_dims:
  "fill_rows body xs (msk, l) = Inr (msk', l') \<Longrightarrow> has_dims msk h w \<Longrightarrow> has_dims msk' h w"
proof (induction xs arbitrary: msk l)
  case Nil
  then show ?case by simp
next
  case (Cons x xs)
  from Cons.prems(1) obtain v m1 where
    "body x = Inr v" and s: "set_row msk x v = Inr m1"
    and r: "fill_rows body xs (m1, Some v) = Inr (msk', l')"
    by (auto split: sum.splits)
  from set_row_dims [OF s Cons.prems(2)] have "has_dims m1 h w" .
  from Cons.IH [OF r this] show ?case .
qed

lemma apply_decay_value_linear_ok:
  assumes "0 < canvas_y" and "nat canvas_y \<le> length msk"
  shows "\<exists>msk' v. apply_decay_value_linear msk canvas_y max_value padding_center decay_rate
                     = Inr (msk', v)"
proof -
  let ?f = "linear_value max_value padding_center decay_rate"
  have a: "\<forall>x \<in> set (py_range canvas_y). x < length msk"
    using assms(2) by (auto simp: py_range_set)
  have b: "\<forall>x \<in> set (py_range canvas_y). (\<lambda>x. Inr (?f x) :: error + real) x = Inr (?f x)"
    by simp
  from fill_rows_ok [OF a b, of None] obtain msk' where
    r: "fill_rows (\<lambda>x. Inr (?f x)) (py_range canvas_y) (msk, None)
          = Inr (msk', if py_range canvas_y = [] then None else Some (?f (last (py_range canvas_y))))"
    by blast
  have ne: "py_range canvas_y \<noteq> []" using py_range_last [OF assms(1)] by simp
  show ?thesis using r ne by (simp add: apply_decay_value_linear_def)
qed

lemma apply_decay_value_linear_dims:
  assumes "apply_decay_value_linear msk canvas_y max_value padding_center decay_rate
             = Inr (msk', v)"
    and "has_dims msk h w"
  shows "has_dims msk' h w"
proof -
  from assms(1) obtain l where
    "fill_rows (\<lambda>x. Inr (linear_value max_value padding_center decay_rate x))
       (py_range canvas_y) (msk, None) = Inr (msk', l)"
    by (auto simp: apply_decay_value_linear_def split: sum.splits prod.splits option.splits)
  from fill_rows_dims [OF this assms(2)] show ?thesis .
qed

lemma apply_decay_value_norm_dims:
  assumes "apply_decay_value_norm msk canvas_y max_value min_value center grange = Inr msk'"
    and "has_dims msk h w"
  shows "has_dims msk' h w"
proof -
  from assms(1) obtain l where
    "fill_rows (norm_value max_value min_value center grange) (py_range canvas_y) (msk, None)
       = Inr (msk', l)"
    by (auto simp: apply_decay_value_norm_def split: sum.splits prod.splits)
  from fill_rows_dims [OF this assms(2)] show ?thesis .
qed

lemma fill_profile_ok:
  assumes d: "has_dims msk (nat canvas_y) w" and cy: "0 < canvas_y" and g: "grange \<noteq> 0"
    and rate: "res_mode rp \<noteq> ''gaussian'' \<longrightarrow> res_decay_rate rp \<noteq> None"
  shows "\<exists>msk1. fill_profile rp msk canvas_y max_brightness min_brightness c grange = Inr msk1
           \<and> has_dims msk1 (nat canvas_y) w"
proof (cases "res_mode rp = ''gaussian''")
  case True
  have len: "nat canvas_y \<le> length msk" using d by (simp add: has_dims_def)
  from apply_decay_value_norm_rows [OF g len] obtain msk1 where
    r: "apply_decay_value_norm msk canvas_y max_brightness min_brightness c grange = Inr msk1"
    by blast
  from apply_decay_value_norm_dims [OF r d] r True show ?thesis
    by (simp add: fill_profile_def)
next
  case False
  then obtain rate where rt: "res_decay_rate rp = Some rate" using rate by auto
  have len: "nat canvas_y \<le> length msk" using d by (simp add: has_dims_def)
  from apply_decay_value_linear_ok [OF cy len] obtain msk1 v where
    r: "apply_decay_value_linear msk canvas_y max_brightness c rate = Inr (msk1, v)"
    by blast
  from apply_decay_value_linear_dims [OF r d] r rt False show ?thesis
    by (simp add: fill_profile_def)
qed

lemma warpAffine_ok:
  assumes "has_dims src (nat cy) (nat cx)" and "0 < cx" and "0 < cy"
  shows "\<exists>m. warpAffine lib src center angle (cx, cy) = Inr m \<and> has_dims m (nat cy) (nat cx)"
proof -
  have "src \<noteq> [] \<and> hd src \<noteq> []"
    using has_dims_nonempty [OF assms(1)] assms(2,3) by simp
  then show ?thesis
    using assms(2,3) by (simp add: warpAffine_def has_dims_nth)
qed

lemma py_slice_length:
  "0 \<le> i \<Longrightarrow> i \<le> j \<Longrightarrow> j \<le> int (length xs) \<Longrightarrow> length (py_slice xs i j) = nat (j - i)"
  by (simp add: py_slice_def Let_def min_def, arith)

lemma py_slice_subset: "set (py_slice xs i j) \<subseteq> set xs"
  unfolding py_slice_def Let_def
  by (meson set_take_subset set_drop_subset subset_trans)

lemma crop_dims:
  assumes "has_dims m (nat (p * 2 + h)) (nat (p * 2 + w))"
    and "0 \<le> p" and "0 \<le> h" and "0 \<le> w"
  shows "has_dims (crop m (p, p) (p + w, p + h)) (nat h) (nat w)"
proof -
  have len: "int (length m) = p * 2 + h" using assms by (simp add: has_dims_def)
  have rows: "\<forall>row \<in> set m. int (length row) = p * 2 + w"
    using assms by (auto simp: has_dims_def list_all_iff)
  have "length (py_slice m p (p + h)) = nat h"
    using py_slice_length [of p "p + h" m] len assms by simp
  moreover have "\<forall>row \<in> set (py_slice m p (p + h)). length (py_slice row p (p + w)) = nat w"
  proof
    fix row assume "row \<in> set (py_slice m p (p + h))"
    then have "row \<in> set m" using py_slice_subset [of m p "p + h"] by auto
    then have "int (length row) = p * 2 + w" using rows by simp
    then show "length (py_slice row p (p + w)) = nat w"
      using py_slice_length [of p "p + w" row] assms by simp
  qed
  ultimately show ?thesis
    by (simp add: crop_def has_dims_def list_all_iff)
qed

lemma medianBlur_ok:
  assumes "has_dims src h w" and "0 < h" and "0 < w" and "odd k"
  shows "\<exists>m. medianBlur src k = Inr m \<and> has_dims m h w"
proof -
  have "src \<noteq> [] \<and> hd src \<noteq> [] \<and> length (hd src) = w"
    using has_dims_nonempty [OF assms(1,2,3)] .
  then show ?thesis
    using assms(1,4) by (simp add: medianBlur_def has_dims_nth)
qed

lemma build_mask_ok:
  assumes w: "0 < w" and h: "0 < h"
    and rate: "res_mode rp \<noteq> ''gaussian'' \<longrightarrow> res_decay_rate rp \<noteq> None"
  shows "\<exists>m. build_mask lib (w, h) rp max_brightness min_brightness = Inr m
           \<and> has_dims m (nat h) (nat w)"
proof -
  let ?p = "padding_of (w, h)"
  have "max w h \<le> ?p" using w padding_ge [of "(w, h)"] by simp
  then have p0: "0 \<le> ?p" using w by linarith
  have cx: "0 < ?p * 2 + w" and cy: "0 < ?p * 2 + h" using p0 w h by simp_all
  have z: "np_zeros (?p * 2 + h) (?p * 2 + w)
             = Inr (replicate (nat (?p * 2 + h)) (replicate (nat (?p * 2 + w)) 0))"
    using cx cy by (simp add: np_zeros_def)
  have d0: "has_dims (replicate (nat (?p * 2 + h)) (replicate (nat (?p * 2 + w)) (0::real)))
              (nat (?p * 2 + h)) (nat (?p * 2 + w))"
    by (rule has_dims_replicate)
  have g: "h \<noteq> 0" using h by simp
  from fill_profile_ok [OF d0 cy g rate] obtain msk1 where
    k: "fill_profile rp (replicate (nat (?p * 2 + h)) (replicate (nat (?p * 2 + w)) 0))
          (?p * 2 + h) max_brightness min_brightness (?p + snd (res_position rp)) h = Inr msk1"
    and d1: "has_dims msk1 (nat (?p * 2 + h)) (nat (?p * 2 + w))"
    by blast
  from warpAffine_ok [OF d1 cx cy] obtain msk2 where
    wa: "warpAffine lib msk1 (?p + fst (res_position rp), ?p + snd (res_position rp))
           (res_direction rp) (?p * 2 + w, ?p * 2 + h) = Inr msk2"
    and d2: "has_dims msk2 (nat (?p * 2 + h)) (nat (?p * 2 + w))"
    by blast
  have d3: "has_dims (crop msk2 (?p, ?p) (?p + w, ?p + h)) (nat h) (nat w)"
    using crop_dims [OF d2 p0] w h by simp
  then have d4: "has_dims (map (map to_uint8) (crop msk2 (?p, ?p) (?p + w, ?p + h)))
                   (nat h) (nat w)"
    by (rule has_dims_map_map)
  have "odd (9::nat)" by simp
  from medianBlur_ok [OF d4 _ _ this] w h obtain msk5 where
    mb: "medianBlur (map (map to_uint8) (crop msk2 (?p, ?p) (?p + w, ?p + h))) 9 = Inr msk5"
    and d5: "has_dims msk5 (nat h) (nat w)"
    by auto
  have r: "build_mask lib (w, h) rp max_brightness min_brightness
             = Inr (map (map (\<lambda>v. 255 - v)) msk5)"
    unfolding build_mask_def Let_def
    by (simp add: z k wa mb)
  show ?thesis using r has_dims_map_map [OF d5] by simp
qed

lemma generate_ok:
  assumes "0 < w" and "0 < h"
  shows "\<exists>m g'. generate_parallel_light_mask lib g (w, h) position direction max_brightness
                    min_brightness mode linear_decay_rate = Inr (m, g')
           \<and> has_dims m (nat h) (nat w)"
proof -
  have "\<exists>rp g'. resolve_parameters g (w, h) position direction max_brightness
                     min_brightness mode linear_decay_rate = Inr (rp, g')
           \<and> res_mode rp = normalise_mode mode
           \<and> (res_mode rp \<noteq> ''gaussian'' \<longrightarrow> res_decay_rate rp \<noteq> None)"
    using assms by (intro resolve_parameters_ok) auto
  then obtain rp g' where
    r: "resolve_parameters g (w, h) position direction max_brightness
          min_brightness mode linear_decay_rate = Inr (rp, g')"
    and rate: "res_mode rp \<noteq> ''gaussian'' \<longrightarrow> res_decay_rate rp \<noteq> None"
    by blast
  from build_mask_ok [OF assms rate] obtain m where
    b: "build_mask lib (w, h) rp max_brightness min_brightness = Inr m"
    and d: "has_dims m (nat h) (nat w)"
    by blast
  have "generate_parallel_light_mask lib g (w, h) position direction max_brightness
          min_brightness mode linear_decay_rate = Inr (m, g')"
    by (simp add: generate_parallel_light_mask_def r b)
  with d show ?thesis by blast
qed

lemma byte_le_255: "unat (v :: byte) \<le> 255"
proof -
  have "unat v < 2 ^ 8" using unsigned_less [of v] by simp
  then show ?thesis by simp
qed

text \<open>
  Claim C2. For every mask size \<open>(w, h)\<close> with positive width and height, and any position,
  direction, brightness range, mode and decay rate, the mask generation returns a mask:
  a 2-D array of 8-bit samples with exactly \<open>h\<close> rows of \<open>w\<close> samples, every sample in
  \<open>[0, 255]\<close>.
\<close>

theorem mask_has_size_of_image:
  assumes "0 < w" and "0 < h"
  shows "\<exists>m g'. generate_parallel_light_mask lib g (w, h) position direction max_brightness
                    min_brightness mode linear_decay_rate = Inr (m, g')
           \<and> length m = nat h
           \<and> (\<forall>row \<in> set m. length row = nat w \<and> (\<forall>v \<in> set row. unat v \<le> 255))"
proof -
  from generate_ok [OF assms] obtain m g' where
    r: "generate_parallel_light_mask lib g (w, h) position direction max_brightness
          min_brightness mode linear_decay_rate = Inr (m, g')"
    and d: "has_dims m (nat h) (nat w)"
    by blast
  have "length m = nat h" using d by (simp add: has_dims_def)
  moreover have "\<forall>row \<in> set m. length row = nat w \<and> (\<forall>v \<in> set row. unat v \<le> 255)"
    using d byte_le_255 by (simp add: has_dims_def list_all_iff)
  ultimately show ?thesis using r by blast
qed

theorem mask_has_size_of_image_witness:
  "(0::int) < 3 \<and> (0::int) < 2
   \<and> (\<exists>m g'. generate_parallel_light_mask cv2_plain (sconst 0) (3, 2) None None 255 0
                 ''linear_static'' None = Inr (m, g')
           \<and> length m = nat 2
           \<and> list_all (\<lambda>row. length row = nat 3 \<and> list_all (\<lambda>v. unat v \<le> 255) row) m)"
  using mask_has_size_of_image [of 3 2 cv2_plain "sconst 0" None None 255 0 "''linear_static''" None]
  by (simp add: list_all_iff)

subsection \<open>Invalid geometry fails, without a check\<close>

lemma py_slice_empty:
  assumes "int (length xs) = p * 2 + s" and "s \<le> 0"
  shows "py_slice xs p (p + s) = []"
proof (cases "0 \<le> p + s")
  case True
  then have "0 \<le> p" using assms(2) by linarith
  then show ?thesis
    using True assms by (simp add: py_slice_def Let_def min_def)
next
  case False
  then have "int (length xs) \<le> p" using assms(1) by linarith
  then have "drop (nat (min p (int (length xs)))) xs = []" by (simp add: min_def)
  moreover have "\<not> p < 0" using assms False by linarith
  ultimately show ?thesis by (simp add: py_slice_def Let_def)
qed

lemma np_zeros_dims: "np_zeros r c = Inr msk \<Longrightarrow> has_dims msk (nat r) (nat c)"
  by (auto simp: np_zeros_def has_dims_replicate split: if_splits)

lemma fill_profile_dims:
  assumes "fill_profile rp msk canvas_y max_brightness min_brightness c grange = Inr msk1"
    and "has_dims msk h w"
  shows "has_dims msk1 h w"
proof (cases "res_mode rp = ''gaussian''")
  case True
  with assms(1) have
    "apply_decay_value_norm msk canvas_y max_brightness min_brightness c grange = Inr msk1"
    by (simp add: fill_profile_def)
  from apply_decay_value_norm_dims [OF this assms(2)] show ?thesis .
next
  case False
  with assms(1) obtain rate v where
    "apply_decay_value_linear msk canvas_y max_brightness c rate = Inr (msk1, v)"
    by (auto simp: fill_profile_def split: option.splits sum.splits prod.splits)
  from apply_decay_value_linear_dims [OF this assms(2)] show ?thesis .
qed

lemma warpAffine_dims:
  assumes "warpAffine lib src center angle (cx, cy) = Inr m"
    and "has_dims src (nat cy) (nat cx)"
  shows "has_dims m (nat cy) (nat cx) \<and> 0 < cx \<and> 0 < cy"
proof -
  from assms(1) have ne: "src \<noteq> []" "hd src \<noteq> []"
    by (auto simp: warpAffine_def split: if_splits)
  have cy: "0 < cy" using ne(1) assms(2) by (cases "0 < cy") (auto simp: has_dims_def)
  have "hd src \<in> set src" using ne(1) by simp
  then have "length (hd src) = nat cx" using assms(2) by (simp add: has_dims_def list_all_iff)
  then have cx: "0 < cx" using ne(2) by (cases "0 < cx") auto
  have "m = map (\<lambda>y. map (\<lambda>x. warp_sample lib src center angle x y) [0 ..< nat cx])
              [0 ..< nat cy]"
    using assms(1) ne cx cy by (simp add: warpAffine_def)
  then show ?thesis using cx cy by (simp add: has_dims_nth)
qed

lemma crop_invalid:
  assumes d: "has_dims m (nat (p * 2 + h)) (nat (p * 2 + w))"
    and cx: "0 < p * 2 + w" and cy: "0 < p * 2 + h" and inv: "w \<le> 0 \<or> h \<le> 0"
  shows "crop m (p, p) (p + w, p + h) = [] \<or> hd (crop m (p, p) (p + w, p + h)) = []"
proof (cases "h \<le> 0")
  case True
  have "int (length m) = p * 2 + h" using d cy by (simp add: has_dims_def)
  from py_slice_empty [OF this True] show ?thesis by (simp add: crop_def)
next
  case False
  then have w: "w \<le> 0" using inv by simp
  show ?thesis
  proof (cases "py_slice m p (p + h)")
    case Nil
    then show ?thesis by (simp add: crop_def)
  next
    case (Cons row rows)
    then have "row \<in> set (py_slice m p (p + h))" by simp
    then have "row \<in> set m" using py_slice_subset [of m p "p + h"] by auto
    then have "int (length row) = p * 2 + w"
      using d cx by (simp add: has_dims_def list_all_iff)
    from py_slice_empty [OF this w] show ?thesis using Cons by (simp add: crop_def)
  qed
qed

lemma medianBlur_empty:
  "src = [] \<or> hd src = [] \<Longrightarrow> medianBlur (map (map f) src) k = Inl CvError"
  by (cases src) (auto simp: medianBlur_def)

lemma build_mask_invalid:
  assumes "w \<le> 0 \<or> h \<le> 0"
  shows "\<exists>e. build_mask lib (w, h) rp max_brightness min_brightness = Inl e"
proof -
  let ?p = "padding_of (w, h)"
  show ?thesis
  proof (cases "np_zeros (?p * 2 + h) (?p * 2 + w)")
    case (Inl e)
    then show ?thesis by (simp add: build_mask_def Let_def)
  next
    case z: (Inr msk)
    from np_zeros_dims [OF z] have d0: "has_dims msk (nat (?p * 2 + h)) (nat (?p * 2 + w))" .
    show ?thesis
    proof (cases "fill_profile rp msk (?p * 2 + h) max_brightness min_brightness
                    (?p + snd (res_position rp)) h")
      case (Inl e)
      then show ?thesis using z by (simp add: build_mask_def Let_def)
    next
      case k: (Inr msk1)
      from fill_profile_dims [OF k d0]
      have d1: "has_dims msk1 (nat (?p * 2 + h)) (nat (?p * 2 + w))" .
      show ?thesis
      proof (cases "warpAffine lib msk1 (?p + fst (res_position rp), ?p + snd (res_position rp))
                      (res_direction rp) (?p * 2 + w, ?p * 2 + h)")
        case (Inl e)
        then show ?thesis using z k by (simp add: build_mask_def Let_def)
      next
        case wa: (Inr msk2)
        from warpAffine_dims [OF wa d1]
        have d2: "has_dims msk2 (nat (?p * 2 + h)) (nat (?p * 2 + w))"
          and cx: "0 < ?p * 2 + w" and cy: "0 < ?p * 2 + h"
          by simp_all
        from crop_invalid [OF d2 cx cy assms]
        have "medianBlur (map (map to_uint8) (crop msk2 (?p, ?p) (?p + w, ?p + h))) 9
                = Inl CvError"
          by (rule medianBlur_empty)
        then show ?thesis using z k wa by (simp add: build_mask_def Let_def)
      qed
    qed
  qed
qed

lemma generate_invalid:
  assumes "w \<le> 0 \<or> h \<le> 0"
  shows "\<exists>e. generate_parallel_light_mask lib g (w, h) position direction max_brightness
                min_brightness mode linear_decay_rate = Inl e"
proof (cases "resolve_parameters g (w, h) position direction max_brightness min_brightness
                mode linear_decay_rate")
  case (Inl e)
  then show ?thesis by (simp add: generate_parallel_light_mask_def)
next
  case (Inr r)
  obtain rp g' where r: "r = (rp, g')" by (cases r)
  from build_mask_invalid [OF assms, of lib rp max_brightness min_brightness] obtain e where
    "build_mask lib (w, h) rp max_brightness min_brightness = Inl e" by blast
  then show ?thesis using Inr r by (simp add: generate_parallel_light_mask_def)
qed

text \<open>
  Claim C8, as amended. For every mask size with a zero or negative width or height, the
  mask generation fails with an exception, and that exception is never the
  \<open>InvalidDimensions\<close> condition.
\<close>

theorem invalid_geometry_fails_unchecked:
  assumes "w \<le> 0 \<or> h \<le> 0"
  shows "\<exists>e. generate_parallel_light_mask lib g (w, h) position direction max_brightness
                min_brightness mode linear_decay_rate = Inl e
              \<and> e \<noteq> InvalidDimensions"
proof -
  from generate_invalid [OF assms] obtain e where
    e: "generate_parallel_light_mask lib g (w, h) position direction max_brightness
          min_brightness mode linear_decay_rate = Inl e"
    by blast
  from generate_error [OF e] e show ?thesis by blast
qed

theorem invalid_geometry_fails_unchecked_witness:
  "((3::int) \<le> 0 \<or> (0::int) \<le> 0)
   \<and> (\<exists>e. generate_parallel_light_mask cv2_plain (sconst 0) (3, 0) (Some (1, 0)) (Some 0) 255 0
              ''gaussian'' None = Inl e
            \<and> e \<noteq> InvalidDimensions)"
proof -
  have h: "(3::int) \<le> 0 \<or> (0::int) \<le> 0" by simp
  show ?thesis
    using h invalid_geometry_fails_unchecked [OF h, of cv2_plain "sconst 0" "Some (1, 0)"
        "Some 0" 255 0 "''gaussian''" None]
    by blast
qed

text \<open>
  Claim C8 as stated fails: for the mask size \<open>(3, 0)\<close> in Gaussian mode the failure is the
  \<^verbatim>\<open>ZeroDivisionError\<close> of the profile kernel, not an \<open>InvalidDimensions\<close> condition.
\<close>

theorem invalid_geometry_counterexample:
  "generate_parallel_light_mask cv2_plain (sconst 0) (3, 0) (Some (1, 0)) (Some 0) 255 0
     ''gaussian'' None = Inl ZeroDivisionError
   \<and> ZeroDivisionError \<noteq> InvalidDimensions"
  using generate_zero_height [of 3 "''gaussian''" cv2_plain "sconst 0" "Some (1, 0)" "Some 0"
      255 0 None]
  by (simp add: normalise_mode_def)


subsection \<open>The shape of the returned image\<close>

lemma colour_image_nth:
  "colour_image h w c (Img3 rows) \<longleftrightarrow>
     0 < h \<and> 0 < w \<and> length rows = h
     \<and> (\<forall>i < h. length (rows ! i) = w \<and> (\<forall>j < w. length (rows ! i ! j) = c))"
  by (auto simp: colour_image_def list_all_length)

lemma colour_image_cases:
  assumes "colour_image h w c img"
  obtains rows where "img = Img3 rows"
  using assms by (cases img) (simp_all add: colour_image_def)

lemma gray_image_cases:
  assumes "gray_image h w img"
  obtains rows where "img = Img2 rows" and "has_dims rows h w" and "0 < h" and "0 < w"
  using assms by (cases img) (simp_all add: gray_image_def has_dims_def)

lemma shape_colour:
  assumes "colour_image h w c img"
  shows "shape img = [h, w, c]"
proof -
  from assms obtain rows where img: "img = Img3 rows" by (rule colour_image_cases)
  from assms have n: "0 < h" "0 < w" "length rows = h"
    and r: "\<forall>i < h. length (rows ! i) = w \<and> (\<forall>j < w. length (rows ! i ! j) = c)"
    unfolding img colour_image_nth by simp_all
  from n obtain r0 rs where rows: "rows = r0 # rs" by (cases rows) auto
  from r n have r0: "length r0 = w \<and> (\<forall>j < w. length (r0 ! j) = c)"
    unfolding rows by (metis nth_Cons_0)
  with n obtain p0 ps where r0': "r0 = p0 # ps" by (cases r0) auto
  from r0 n have "length p0 = c" unfolding r0' by (metis nth_Cons_0)
  then show ?thesis using n r0 by (simp add: img rows r0')
qed

lemma shape_gray:
  assumes "gray_image h w img"
  shows "shape img = [h, w]"
proof -
  from assms obtain rows where img: "img = Img2 rows" and d: "has_dims rows h w" and h: "0 < h"
    by (rule gray_image_cases)
  from has_dims_nonempty [OF d h] d show ?thesis
    by (cases rows) (auto simp: img has_dims_def gray_image_def)
qed

lemma convert_pixels_ok:
  assumes "colour_image h w 3 img"
  shows "\<exists>out. convert_pixels f img = Inr out \<and> colour_image h w 3 out"
proof -
  from assms obtain rows where img: "img = Img3 rows" by (rule colour_image_cases)
  from assms have n: "0 < h" "0 < w" "length rows = h"
    and r: "\<forall>i < h. length (rows ! i) = w \<and> (\<forall>j < w. length (rows ! i ! j) = 3)"
    unfolding img colour_image_nth by simp_all
  have ne: "rows \<noteq> [] \<and> hd rows \<noteq> []"
    using n r by (cases rows) (auto simp: nth_Cons_0 dest!: spec [of _ 0])
  have px: "\<not> (\<exists>row \<in> set rows. \<exists>px \<in> set row. length px \<noteq> 3 \<and> length px \<noteq> 4)"
    using assms unfolding img colour_image_def by (auto simp: list_all_iff)
  let ?g = "\<lambda>px. (case f (px ! 0, px ! 1, px ! 2) of (a, b, c) \<Rightarrow> [a, b, c])"
  have len: "\<And>px. length (?g px) = 3" by (simp split: prod.splits)
  have "convert_pixels f img = Inr (Img3 (map (map ?g) rows))"
    using ne px by (simp add: convert_pixels_def img)
  moreover have "colour_image h w 3 (Img3 (map (map ?g) rows))"
    unfolding colour_image_nth using n r len by simp
  ultimately show ?thesis by blast
qed

lemma cvtColor_GRAY2BGR_ok:
  assumes "gray_image h w img"
  shows "\<exists>out. cvtColor_GRAY2BGR img = Inr out \<and> colour_image h w 3 out"
proof -
  from assms obtain rows where img: "img = Img2 rows" and d: "has_dims rows h w"
    and h: "0 < h" and w: "0 < w"
    by (rule gray_image_cases)
  have ne: "rows \<noteq> [] \<and> hd rows \<noteq> []" using has_dims_nonempty [OF d h w] by simp
  have "cvtColor_GRAY2BGR img = Inr (Img3 (map (map (\<lambda>v. [v, v, v])) rows))"
    using ne by (simp add: cvtColor_GRAY2BGR_def img)
  moreover have "colour_image h w 3 (Img3 (map (map (\<lambda>v. [v, v, v])) rows))"
    unfolding colour_image_nth using d h w by (simp add: has_dims_nth)
  ultimately show ?thesis by blast
qed

lemma to_hsv_colour:
  assumes "colour_image h w 3 img"
  shows "\<exists>hsv. to_hsv lib img = Inr hsv \<and> colour_image h w 3 hsv"
  using convert_pixels_ok [OF assms] shape_colour [OF assms]
  by (simp add: to_hsv_def cvtColor_BGR2HSV_def)

lemma to_hsv_gray:
  assumes "gray_image h w img"
  shows "\<exists>hsv. to_hsv lib img = Inr hsv \<and> colour_image h w 3 hsv"
proof -
  from cvtColor_GRAY2BGR_ok [OF assms] obtain bgr where
    b: "cvtColor_GRAY2BGR img = Inr bgr" and c: "colour_image h w 3 bgr" by blast
  from convert_pixels_ok [OF c] show ?thesis
    using shape_gray [OF assms] b by (simp add: to_hsv_def cvtColor_BGR2HSV_def)
qed

lemma map_length_dims:
  "has_dims a h w \<Longrightarrow> has_dims b h w \<Longrightarrow> map length a = map length b"
  by (simp add: has_dims_nth list_eq_iff_nth_eq)

lemma colour_rows_dims: "colour_image h w c (Img3 rows) \<Longrightarrow> has_dims rows h w"
  by (simp add: colour_image_nth has_dims_nth)

lemma blend_ok:
  assumes c: "colour_image h w 3 hsv" and m: "has_dims lighting_mask h w"
  shows "\<exists>out. blend hsv lighting_mask t = Inr out \<and> colour_image h w 3 out"
proof -
  from c obtain rows where hsv: "hsv = Img3 rows" by (rule colour_image_cases)
  from c have n: "0 < h" "0 < w" "length rows = h"
    and r: "\<forall>i < h. length (rows ! i) = w \<and> (\<forall>j < w. length (rows ! i ! j) = 3)"
    unfolding hsv colour_image_nth by simp_all
  have l: "map length rows = map length lighting_mask"
    using map_length_dims [OF colour_rows_dims m] c hsv by simp
  have px: "\<not> (\<exists>row \<in> set rows. \<exists>px \<in> set row. length px \<le> 2)"
    using c unfolding hsv colour_image_def by (auto simp: list_all_iff)
  let ?f = "\<lambda>px m. px[2 := blend_value t (px ! 2) m]"
  have "blend hsv lighting_mask t = Inr (Img3 (map2 (map2 ?f) rows lighting_mask))"
    using l px by (simp add: blend_def hsv)
  moreover have "colour_image h w 3 (Img3 (map2 (map2 ?f) rows lighting_mask))"
    unfolding colour_image_nth using n r m by (simp add: has_dims_nth)
  ultimately show ?thesis by blast
qed

lemma clamp_255_colour: "colour_image h w c img \<Longrightarrow> colour_image h w c (clamp_255 img)"
  by (cases img) (simp_all add: colour_image_nth, simp add: colour_image_def)

lemma output_image_make_outputs:
  "output_image (make_outputs frame msk keypoints bounding_boxes) = frame"
  by (simp add: make_outputs_def)

lemma first_channels_colour:
  assumes "colour_image h w 4 img"
  shows "colour_image h w 3 (first_channels 3 img)"
proof -
  from assms obtain rows where img: "img = Img3 rows" by (rule colour_image_cases)
  show ?thesis using assms unfolding img by (simp add: colour_image_nth)
qed

lemma channel_dims:
  assumes "colour_image h w c img"
  shows "has_dims (channel k img) h w"
proof -
  from assms obtain rows where img: "img = Img3 rows" by (rule colour_image_cases)
  show ?thesis using assms unfolding img by (simp add: colour_image_nth has_dims_nth)
qed

lemma dstack_ok:
  assumes c: "colour_image h w 3 frame" and a: "has_dims alpha h w"
  shows "\<exists>out. dstack frame alpha = Inr out \<and> colour_image h w 4 out"
proof -
  from c obtain rows where frame: "frame = Img3 rows" by (rule colour_image_cases)
  from c have n: "0 < h" "0 < w" "length rows = h"
    and r: "\<forall>i < h. length (rows ! i) = w \<and> (\<forall>j < w. length (rows ! i ! j) = 3)"
    unfolding frame colour_image_nth by simp_all
  have l: "map length rows = map length alpha"
    using map_length_dims [OF colour_rows_dims a] c frame by simp
  let ?out = "map2 (map2 (\<lambda>px a. px @ [a])) rows alpha"
  have d: "dstack frame alpha = Inr (Img3 ?out)"
    using l by (simp add: dstack_def frame)
  have ci: "colour_image h w 4 (Img3 ?out)"
    unfolding colour_image_nth using n r a by (simp add: has_dims_nth)
  with d show ?thesis by blast
qed

lemma apply_gradient_core:
  assumes sa: "split_alpha img = (ha, frame1, alpha)"
    and sh: "shape frame1 ! 0 = h" "shape frame1 ! 1 = w"
    and hsv: "to_hsv lib frame1 = Inr hsv" and chsv: "colour_image h w 3 hsv"
  shows "\<exists>frame2 g2. colour_image h w 3 frame2
           \<and> apply_gradient lib self g img msk keypoints bounding_boxes
             = (case (if ha then
                        (case alpha of
                           None \<Rightarrow> Inl UnboundLocalError
                         | Some a \<Rightarrow> dstack (clamp_255 frame2) a)
                      else Inr (clamp_255 frame2)) of
                  Inl e \<Rightarrow> Inl e
                | Inr frame3 \<Rightarrow> Inr (Some (make_outputs frame3 msk keypoints bounding_boxes), g2))"
proof -
  have sh1: "shape frame1 ! Suc 0 = w" using sh(2) by simp
  obtain t g1 where t: "resolve_transparency self g = (t, g1)"
    by (cases "resolve_transparency self g")
  from chsv obtain hrows where "hsv = Img3 hrows" by (rule colour_image_cases)
  with chsv have pos: "0 < h" "0 < w" by (simp_all add: colour_image_nth)
  then have "0 < int w" "0 < int h" by simp_all
  from generate_ok [OF this] obtain m g2 where
    gen: "generate_parallel_light_mask lib g1 (int w, int h) (self_light_position self)
            (self_direction self) (self_max_brightness self) (self_min_brightness self)
            (self_mode self) (self_linear_decay_rate self) = Inr (m, g2)"
    and d: "has_dims m (nat (int h)) (nat (int w))"
    by blast
  from d have d': "has_dims m h w" by simp
  from blend_ok [OF chsv d'] obtain hsv1 where
    b: "blend hsv m t = Inr hsv1" and c1: "colour_image h w 3 hsv1" by blast
  from convert_pixels_ok [OF c1] obtain frame2 where
    f2: "cvtColor_HSV2BGR lib hsv1 = Inr frame2" and c2: "colour_image h w 3 frame2"
    unfolding cvtColor_HSV2BGR_def by blast
  have "apply_gradient lib self g img msk keypoints bounding_boxes
             = (case (if ha then
                        (case alpha of
                           None \<Rightarrow> Inl UnboundLocalError
                         | Some a \<Rightarrow> dstack (clamp_255 frame2) a)
                      else Inr (clamp_255 frame2)) of
                  Inl e \<Rightarrow> Inl e
                | Inr frame3 \<Rightarrow> Inr (Some (make_outputs frame3 msk keypoints bounding_boxes), g2))"
    unfolding apply_gradient_def Let_def
    by (simp add: sa t sh sh1 hsv gen b f2)
  with c2 show ?thesis by blast
qed

lemma split_alpha_colour3:
  "colour_image h w 3 img \<Longrightarrow> split_alpha img = (False, img, None)"
  by (simp add: split_alpha_def shape_colour)

lemma split_alpha_gray:
  "gray_image h w img \<Longrightarrow> split_alpha img = (False, img, None)"
  by (simp add: split_alpha_def shape_gray)

lemma split_alpha_colour4:
  "colour_image h w 4 img \<Longrightarrow>
     split_alpha img = (True, first_channels 3 img, Some (channel 3 img))"
  by (simp add: split_alpha_def shape_colour)

lemma apply_gradient_colour3:
  assumes c: "colour_image h w 3 img"
  shows "\<exists>out g'. apply_gradient lib self g img msk keypoints bounding_boxes
                     = Inr (Some out, g')
           \<and> colour_image h w 3 (output_image out)"
proof -
  from to_hsv_colour [OF c] obtain hsv where
    hsv: "to_hsv lib img = Inr hsv" and chsv: "colour_image h w 3 hsv" by blast
  have sh: "shape img ! 0 = h" "shape img ! 1 = w" by (simp_all add: shape_colour [OF c])
  from apply_gradient_core [where self = self and g = g and msk = msk
      and keypoints = keypoints and bounding_boxes = bounding_boxes,
      OF split_alpha_colour3 [OF c] sh hsv chsv]
  obtain frame2 g2 where c2: "colour_image h w 3 frame2"
    and r: "apply_gradient lib self g img msk keypoints bounding_boxes
            = Inr (Some (make_outputs (clamp_255 frame2) msk keypoints bounding_boxes), g2)"
    by auto
  show ?thesis using r clamp_255_colour [OF c2] by (simp add: output_image_make_outputs)
qed

lemma apply_gradient_gray:
  assumes c: "gray_image h w img"
  shows "\<exists>out g'. apply_gradient lib self g img msk keypoints bounding_boxes
                     = Inr (Some out, g')
           \<and> colour_image h w 3 (output_image out)"
proof -
  from to_hsv_gray [OF c] obtain hsv where
    hsv: "to_hsv lib img = Inr hsv" and chsv: "colour_image h w 3 hsv" by blast
  have sh: "shape img ! 0 = h" "shape img ! 1 = w" by (simp_all add: shape_gray [OF c])
  from apply_gradient_core [where self = self and g = g and msk = msk
      and keypoints = keypoints and bounding_boxes = bounding_boxes,
      OF split_alpha_gray [OF c] sh hsv chsv]
  obtain frame2 g2 where c2: "colour_image h w 3 frame2"
    and r: "apply_gradient lib self g img msk keypoints bounding_boxes
            = Inr (Some (make_outputs (clamp_255 frame2) msk keypoints bounding_boxes), g2)"
    by auto
  show ?thesis using r clamp_255_colour [OF c2] by (simp add: output_image_make_outputs)
qed

lemma apply_gradient_colour4:
  assumes c: "colour_image h w 4 img"
  shows "\<exists>out g'. apply_gradient lib self g img msk keypoints bounding_boxes
                     = Inr (Some out, g')
           \<and> colour_image h w 4 (output_image out)"
proof -
  have c3: "colour_image h w 3 (first_channels 3 img)" by (rule first_channels_colour [OF c])
  from to_hsv_colour [OF c3] obtain hsv where
    hsv: "to_hsv lib (first_channels 3 img) = Inr hsv" and chsv: "colour_image h w 3 hsv"
    by blast
  have sh: "shape (first_channels 3 img) ! 0 = h" "shape (first_channels 3 img) ! 1 = w"
    by (simp_all add: shape_colour [OF c3])
  from apply_gradient_core [where self = self and g = g and msk = msk
      and keypoints = keypoints and bounding_boxes = bounding_boxes,
      OF split_alpha_colour4 [OF c] sh hsv chsv]
  obtain frame2 g2 where c2: "colour_image h w 3 frame2"
    and r: "apply_gradient lib self g img msk keypoints bounding_boxes
            = (case dstack (clamp_255 frame2) (channel 3 img) of
                 Inl e \<Rightarrow> Inl e
               | Inr frame3 \<Rightarrow>
                   Inr (Some (make_outputs frame3 msk keypoints bounding_boxes), g2))"
    by auto
  from dstack_ok [OF clamp_255_colour [OF c2] channel_dims [OF c]] obtain out where
    "dstack (clamp_255 frame2) (channel 3 img) = Inr out" and "colour_image h w 4 out"
    by blast
  then show ?thesis using r by (simp add: output_image_make_outputs)
qed

lemma call_forced:
  "call lib self g img msk keypoints bounding_boxes True
     = apply_gradient lib self g img msk keypoints bounding_boxes"
  by (simp add: call_def gate_def)

lemma call_Some:
  assumes "call lib self g img msk keypoints bounding_boxes force = Inr (Some out, g')"
  shows "\<exists>g0. apply_gradient lib self g0 img msk keypoints bounding_boxes = Inr (Some out, g')"
  using assms by (auto simp: call_def Let_def split: prod.splits if_splits)


subsection \<open>The alpha channel\<close>

lemma append_channel_row:
  assumes "length row = length al" and "\<forall>px \<in> set row. length px = n"
  shows "map (\<lambda>px. px ! n) (map2 (\<lambda>px a. px @ [a]) row al) = al"
  using assms by (induction row al rule: list_induct2) (auto simp: nth_append)

lemma append_channel:
  assumes "map length rows = map length alpha"
    and "\<forall>row \<in> set rows. \<forall>px \<in> set row. length px = n"
  shows "map (map (\<lambda>px. px ! n)) (map2 (map2 (\<lambda>px a. px @ [a])) rows alpha) = alpha"
proof -
  have "length rows = length alpha" using assms(1) by (rule map_eq_imp_length_eq)
  then show ?thesis
    using assms
  proof (induction rows alpha rule: list_induct2)
    case Nil
    then show ?case by simp
  next
    case (Cons row rows al alpha)
    have "length row = length al" and "\<forall>px \<in> set row. length px = n"
      using Cons.prems by simp_all
    then have "map (\<lambda>px. px ! n) (map2 (\<lambda>px a. px @ [a]) row al) = al"
      by (rule append_channel_row)
    moreover have "map (map (\<lambda>px. px ! n)) (map2 (map2 (\<lambda>px a. px @ [a])) rows alpha) = alpha"
      using Cons.IH Cons.prems by simp
    ultimately show ?case by simp
  qed
qed

lemma convert_pixels_three:
  assumes "convert_pixels f src = Inr out"
  obtains rows where "out = Img3 rows" and "\<forall>row \<in> set rows. \<forall>px \<in> set row. length px = 3"
proof -
  from assms obtain srows where "src = Img3 srows"
    by (cases src) (simp_all add: convert_pixels_def)
  with assms have
    "out = Img3 (map (map (\<lambda>px.
       (case f (px ! 0, px ! 1, px ! 2) of (a, b, c) \<Rightarrow> [a, b, c]))) srows)"
    by (auto simp: convert_pixels_def split: if_splits)
  moreover have "\<forall>row \<in> set (map (map (\<lambda>px.
       (case f (px ! 0, px ! 1, px ! 2) of (a, b, c) \<Rightarrow> [a, b, c]))) srows).
       \<forall>px \<in> set row. length px = 3"
    by (auto split: prod.splits)
  ultimately show ?thesis using that by blast
qed

lemma dstack_channel:
  assumes "convert_pixels f src = Inr frame2"
    and "dstack (clamp_255 frame2) alpha = Inr frame3"
  shows "channel 3 frame3 = alpha"
proof -
  from assms(1) obtain rows where f2: "frame2 = Img3 rows"
    and three: "\<forall>row \<in> set rows. \<forall>px \<in> set row. length px = 3"
    by (rule convert_pixels_three)
  let ?rows = "map (map (map (\<lambda>v :: byte. if 255 < unat v then 255 else v))) rows"
  have three': "\<forall>row \<in> set ?rows. \<forall>px \<in> set row. length px = 3" using three by auto
  from assms(2) have l: "map length ?rows = map length alpha"
    and f3: "frame3 = Img3 (map2 (map2 (\<lambda>px a. px @ [a])) ?rows alpha)"
    by (auto simp: f2 dstack_def split: if_splits)
  show ?thesis
    unfolding f3 using append_channel [OF l three'] by simp
qed

lemma apply_gradient_alpha:
  assumes "length (shape img) > 2" and "shape img ! 2 = 4"
    and r: "apply_gradient lib self g img msk keypoints bounding_boxes = Inr (Some out, g')"
  shows "channel 3 (output_image out) = channel 3 img"
proof -
  have sa: "split_alpha img = (True, first_channels 3 img, Some (channel 3 img))"
    using assms(1,2) by (simp add: split_alpha_def)
  obtain t g1 where t: "resolve_transparency self g = (t, g1)"
    by (cases "resolve_transparency self g")
  from r obtain hsv1 frame2 frame3 where
    "cvtColor_HSV2BGR lib hsv1 = Inr frame2"
    and d: "dstack (clamp_255 frame2) (channel 3 img) = Inr frame3"
    and out: "out = make_outputs frame3 msk keypoints bounding_boxes"
    unfolding apply_gradient_def Let_def
    by (auto simp: sa t split: sum.splits prod.splits)
  then have "convert_pixels (hsv2bgr lib) hsv1 = Inr frame2"
    by (simp add: cvtColor_HSV2BGR_def)
  from dstack_channel [OF this d] show ?thesis
    by (simp add: out output_image_make_outputs)
qed

text \<open>
  Claim C6. For every 4-channel input image, whenever \<^verbatim>\<open>__call__\<close> runs the augmentation
  and returns an image, channel 3 of the returned image is channel 3 of the input, sample
  for sample.
\<close>

theorem alpha_channel_preserved:
  assumes "length (shape img) > 2" and "shape img ! 2 = 4"
    and "call lib self g img msk keypoints bounding_boxes force = Inr (Some out, g')"
  shows "channel 3 (output_image out) = channel 3 img"
proof -
  from call_Some [OF assms(3)] obtain g0 where
    "apply_gradient lib self g0 img msk keypoints bounding_boxes = Inr (Some out, g')"
    by blast
  from apply_gradient_alpha [OF assms(1,2) this] show ?thesis .
qed

theorem alpha_channel_preserved_witness:
  "length (shape (Img3 [[[1, 2, 3, 4]]])) > 2 \<and> shape (Img3 [[[1, 2, 3, 4]]]) ! 2 = 4
   \<and> (\<exists>out g'. call cv2_plain default_gradient (sconst 0) (Img3 [[[1, 2, 3, 4]]])
                   (None :: unit option) (None :: unit option) (None :: unit option) True
                 = Inr (Some out, g')
          \<and> channel 3 (output_image out) = [[4]])"
proof -
  have c: "colour_image 1 1 4 (Img3 [[[1, 2, 3, 4]]])" by (simp add: colour_image_def)
  have s: "length (shape (Img3 [[[1, 2, 3, 4]]])) > 2" "shape (Img3 [[[1, 2, 3, 4]]]) ! 2 = 4"
    by simp_all
  from apply_gradient_colour4 [OF c, of cv2_plain default_gradient "sconst 0"
      "None :: unit option" "None :: unit option" "None :: unit option"]
  obtain out g' where
    r: "call cv2_plain default_gradient (sconst 0) (Img3 [[[1, 2, 3, 4]]])
          (None :: unit option) (None :: unit option) (None :: unit option) True
        = Inr (Some out, g')"
    unfolding call_forced by blast
  from alpha_channel_preserved [OF s r] have "channel 3 (output_image out) = [[4]]" by simp
  with s r show ?thesis by blast
qed

subsection \<open>A grey-scale image comes back with three channels\<close>

text \<open>
  Claim C1 at its failing input. For a grey-scale image given as a 2-D array of \<open>h\<close> rows
  and \<open>w\<close> columns, whenever \<^verbatim>\<open>__call__\<close> runs the augmentation and returns an image, the
  shape of that image is \<open>(h, w, 3)\<close> while the shape of the input is \<open>(h, w)\<close>: lines 219 to
  221 promote the frame to three channels, and no statement converts it back.
\<close>

theorem gray_input_gives_three_channels:
  assumes "gray_image h w img"
    and "call lib self g img msk keypoints bounding_boxes force = Inr (Some out, g')"
  shows "shape img = [h, w] \<and> shape (output_image out) = [h, w, 3]"
proof -
  from call_Some [OF assms(2)] obtain g0 where
    r: "apply_gradient lib self g0 img msk keypoints bounding_boxes = Inr (Some out, g')"
    by blast
  from apply_gradient_gray [OF assms(1), of lib self g0 msk keypoints bounding_boxes] r
  have "colour_image h w 3 (output_image out)" by auto
  then show ?thesis using shape_gray [OF assms(1)] shape_colour by blast
qed

theorem gray_input_gives_three_channels_witness:
  "gray_image 1 1 (Img2 [[128]])
   \<and> (\<exists>out g'. call cv2_plain default_gradient (sconst 0) (Img2 [[128]])
                   (None :: unit option) (None :: unit option) (None :: unit option) True
                 = Inr (Some out, g')
          \<and> shape (Img2 [[128]]) = [1, 1] \<and> shape (output_image out) = [1, 1, 3])"
proof -
  have c: "gray_image 1 1 (Img2 [[128]])" by (simp add: gray_image_def)
  from apply_gradient_gray [OF c, of cv2_plain default_gradient "sconst 0"
      "None :: unit option" "None :: unit option" "None :: unit option"]
  obtain out g' where
    r: "call cv2_plain default_gradient (sconst 0) (Img2 [[128]])
          (None :: unit option) (None :: unit option) (None :: unit option) True
        = Inr (Some out, g')"
    unfolding call_forced by blast
  from gray_input_gives_three_channels [OF c r] c r show ?thesis by blast
qed

subsection \<open>The caller's image is not written\<close>

lemma extends_refl: "extends s s"
  by (simp add: extends_def)

lemma extends_alloc:
  assumes "extends s s1" and "alloc v s1 = (a, s2)"
  shows "extends s s2 \<and> length s \<le> a \<and> a < length s2 \<and> a = length s1
           \<and> s2 ! a = v \<and> (\<forall>i < length s1. s2 ! i = s1 ! i)"
  using assms by (auto simp: extends_def alloc_def nth_append)

lemma extends_update:
  assumes "extends s s1" and "length s \<le> i"
  shows "extends s (s1[i := v])"
  using assms by (simp add: extends_def)

lemma extends_nth: "extends s s1 \<Longrightarrow> i < length s \<Longrightarrow> s1 ! i = s ! i"
  by (metis extends_def nth_take)

lemma to_hsv_store_frame:
  assumes "extends s s1" and "to_hsv_store lib frame s1 = (r, s2)"
  shows "extends s s2 \<and> length s1 \<le> length s2 \<and> (\<forall>i < length s1. s2 ! i = s1 ! i)
           \<and> (case r of
                 Inl e \<Rightarrow> to_hsv lib frame = Inl e
               | Inr a \<Rightarrow> length s1 \<le> a \<and> a < length s2 \<and> to_hsv lib frame = Inr (s2 ! a))"
  using assms
  by (auto simp: to_hsv_store_def to_hsv_def extends_def alloc_def nth_append Let_def
      split: sum.splits if_splits)


lemma load_make_outputs:
  "load_outputs s (make_outputs r msk keypoints bounding_boxes)
     = make_outputs (s ! r) msk keypoints bounding_boxes"
  by (simp add: make_outputs_def)

lemma output_image_make_outputs_addr:
  "output_image (make_outputs (r :: nat) msk keypoints bounding_boxes) = r"
  by (simp add: make_outputs_def)

lemma apply_gradient_store_sound:
  assumes "a < length s"
    and "apply_gradient_store lib self g s a msk keypoints bounding_boxes = (r, s')"
  shows "extends s s'
         \<and> (case r of
               Inl e \<Rightarrow> apply_gradient lib self g (s ! a) msk keypoints bounding_boxes = Inl e
             | Inr (None, g') \<Rightarrow> False
             | Inr (Some out, g') \<Rightarrow>
                 length s \<le> output_image out \<and> output_image out < length s'
                 \<and> apply_gradient lib self g (s ! a) msk keypoints bounding_boxes
                     = Inr (Some (load_outputs s' out), g'))"
proof -
  let ?img = "s ! a"
  let ?ha = "length (shape ?img) > 2 \<and> shape ?img ! 2 = 4"
  let ?frame1 = "if ?ha then first_channels 3 ?img else ?img"
  let ?s1 = "s @ [?img]"
  have e1: "extends s ?s1" by (simp add: extends_def)
  obtain rh s2 where h: "to_hsv_store lib ?frame1 ?s1 = (rh, s2)"
    by (cases "to_hsv_store lib ?frame1 ?s1")
  from to_hsv_store_frame [OF e1 h] have e2: "extends s s2"
    and l2: "length ?s1 \<le> length s2" and k2: "\<forall>i < length ?s1. s2 ! i = ?s1 ! i"
    and rh: "(case rh of
                 Inl e \<Rightarrow> to_hsv lib ?frame1 = Inl e
               | Inr b \<Rightarrow> length ?s1 \<le> b \<and> b < length s2 \<and> to_hsv lib ?frame1 = Inr (s2 ! b))"
    by simp_all
  have img2: "s2 ! length s = ?img" using k2 by simp
  obtain t g1 where t: "resolve_transparency self g = (t, g1)"
    by (cases "resolve_transparency self g")
  have sa: "split_alpha ?img
              = (?ha, ?frame1, if ?ha then Some (channel 3 ?img) else None)"
    by (simp add: split_alpha_def)
  show ?thesis
  proof (cases rh)
    case (Inl e)
    then have "r = Inl e" and "s' = s2"
      using assms(2) h t by (simp_all add: apply_gradient_store_def alloc_def Let_def nth_append
                    cong del: if_weak_cong)
    moreover have "apply_gradient lib self g ?img msk keypoints bounding_boxes = Inl e"
      using rh Inl sa t by (simp add: apply_gradient_def Let_def)
    ultimately show ?thesis using e2 by simp
  next
    case (Inr a_hsv)
    then have b: "length ?s1 \<le> a_hsv" "a_hsv < length s2"
      and hsv: "to_hsv lib ?frame1 = Inr (s2 ! a_hsv)"
      using rh by simp_all
    let ?gen = "generate_parallel_light_mask lib g1
                  (int (shape ?frame1 ! 1), int (shape ?frame1 ! 0))
                  (self_light_position self) (self_direction self)
                  (self_max_brightness self) (self_min_brightness self)
                  (self_mode self) (self_linear_decay_rate self)"
    show ?thesis
    proof (cases ?gen)
      case (Inl e)
      then have "r = Inl e" and "s' = s2"
        using assms(2) h t \<open>rh = Inr a_hsv\<close>
        by (simp_all add: apply_gradient_store_def alloc_def Let_def nth_append
                    cong del: if_weak_cong)
      moreover have "apply_gradient lib self g ?img msk keypoints bounding_boxes = Inl e"
        using hsv Inl sa t by (simp add: apply_gradient_def Let_def)
      ultimately show ?thesis using e2 by simp
    next
      case gen: (Inr mg)
      obtain m g2 where mg: "mg = (m, g2)" by (cases mg)
      let ?s3 = "s2 @ [Img2 m]"
      have e3: "extends s ?s3" using e2 by (simp add: extends_def)
      have hsv3: "?s3 ! a_hsv = s2 ! a_hsv" using b by (simp add: nth_append)
      show ?thesis
      proof (cases "blend (s2 ! a_hsv) m t")
        case (Inl e)
        then have "r = Inl e" and "s' = ?s3"
          using assms(2) h t \<open>rh = Inr a_hsv\<close> gen mg hsv3
          by (simp_all add: apply_gradient_store_def alloc_def Let_def nth_append
                    cong del: if_weak_cong)
        moreover have "apply_gradient lib self g ?img msk keypoints bounding_boxes = Inl e"
          using hsv gen mg Inl sa t by (simp add: apply_gradient_def Let_def)
        ultimately show ?thesis using e3 by simp
      next
        case bl: (Inr hsv1)
        let ?s4 = "?s3[a_hsv := hsv1]"
        have e4: "extends s ?s4" using e3 b by (intro extends_update) simp_all
        have hsv4: "?s4 ! a_hsv = hsv1" using b by simp
        show ?thesis
        proof (cases "cvtColor_HSV2BGR lib hsv1")
          case (Inl e)
          then have "r = Inl e" and "s' = ?s4"
            using assms(2) h t \<open>rh = Inr a_hsv\<close> gen mg hsv3 bl hsv4
            by (simp_all add: apply_gradient_store_def alloc_def Let_def nth_append
                    cong del: if_weak_cong)
          moreover have "apply_gradient lib self g ?img msk keypoints bounding_boxes = Inl e"
            using hsv gen mg bl Inl sa t by (simp add: apply_gradient_def Let_def)
          ultimately show ?thesis using e4 by simp
        next
          case f2: (Inr frame2)
          let ?s6 = "(?s4 @ [frame2])[length ?s4 := clamp_255 frame2]"
          have e6: "extends s ?s6" using e4 by (simp add: extends_def)
          have c6: "?s6 ! length ?s4 = clamp_255 frame2" by simp
          have i6: "?s6 ! length s = ?img"
            using img2 b by (simp add: nth_append nth_list_update)
          have len6: "length s \<le> length ?s4" "length ?s4 < length ?s6"
            using e4 by (simp_all add: extends_def)
          show ?thesis
          proof (cases ?ha)
            case False
            then have nha: "?ha = False" by simp
            have "r = Inr (Some (make_outputs (length ?s4) msk keypoints bounding_boxes), g2)"
              and "s' = ?s6"
              using assms(2) h t \<open>rh = Inr a_hsv\<close> gen mg hsv3 bl hsv4 f2
              by (simp_all add: apply_gradient_store_def alloc_def Let_def nha nth_append
                  cong del: if_weak_cong)
            moreover have "apply_gradient lib self g ?img msk keypoints bounding_boxes
                = Inr (Some (make_outputs (clamp_255 frame2) msk keypoints bounding_boxes), g2)"
              using hsv gen mg bl f2 sa t by (simp add: apply_gradient_def Let_def nha)
            ultimately show ?thesis
              using e6 c6 len6
              by (simp add: load_make_outputs output_image_make_outputs_addr)
          next
            case True
            show ?thesis
            proof (cases "dstack (clamp_255 frame2) (channel 3 ?img)")
              case (Inl e)
              then have "r = Inl e" and "s' = ?s6"
                using assms(2) h t \<open>rh = Inr a_hsv\<close> gen mg hsv3 bl hsv4 f2 True i6
                by (simp_all add: apply_gradient_store_def alloc_def Let_def nth_append
                    cong del: if_weak_cong)
              moreover have
                "apply_gradient lib self g ?img msk keypoints bounding_boxes = Inl e"
                using hsv gen mg bl f2 sa t True Inl by (simp add: apply_gradient_def Let_def)
              ultimately show ?thesis using e6 by simp
            next
              case ds: (Inr frame3)
              let ?s7 = "?s6 @ [frame3]"
              have "r = Inr (Some (make_outputs (length ?s6) msk keypoints bounding_boxes), g2)"
                and "s' = ?s7"
                using assms(2) h t \<open>rh = Inr a_hsv\<close> gen mg hsv3 bl hsv4 f2 True i6 ds
                by (simp_all add: apply_gradient_store_def alloc_def Let_def nth_append
                    cong del: if_weak_cong)
              moreover have "apply_gradient lib self g ?img msk keypoints bounding_boxes
                  = Inr (Some (make_outputs frame3 msk keypoints bounding_boxes), g2)"
                using hsv gen mg bl f2 sa t True ds by (simp add: apply_gradient_def Let_def)
              moreover have "extends s ?s7" using e6 by (simp add: extends_def)
              ultimately show ?thesis
                using len6
                by (simp add: load_make_outputs output_image_make_outputs_addr nth_append)
            qed
          qed
        qed
      qed
    qed
  qed
qed


text \<open>
  Claim C10. On a store that holds the caller's image at address \<open>a\<close>, \<^verbatim>\<open>__call__\<close> leaves
  every buffer that existed before the call as it was, the caller's image among them,
  whether it returns or raises: it only adds buffers and writes to buffers it has added.
  When it returns an image, that image lives at an address that did not exist before the
  call, so it is not the caller's buffer, and it holds what the method computes from the
  content of the caller's image.
\<close>

theorem input_buffer_untouched:
  assumes "a < length s"
    and "call_store lib self g s a msk keypoints bounding_boxes force = (r, s')"
  shows "extends s s' \<and> s' ! a = s ! a
         \<and> (\<forall>out g'. r = Inr (Some out, g') \<longrightarrow>
               length s \<le> output_image out \<and> output_image out < length s'
               \<and> output_image out \<noteq> a
               \<and> call lib self g (s ! a) msk keypoints bounding_boxes force
                   = Inr (Some (load_outputs s' out), g'))"
proof -
  obtain run g0 where gt: "gate self force g = (run, g0)" by (cases "gate self force g")
  show ?thesis
  proof (cases run)
    case False
    then have "r = Inr (None, g0)" and "s' = s"
      using assms(2) gt by (simp_all add: call_store_def)
    then show ?thesis by (simp add: extends_refl)
  next
    case True
    then have st: "apply_gradient_store lib self g0 s a msk keypoints bounding_boxes = (r, s')"
      using assms(2) gt by (simp add: call_store_def)
    have c: "call lib self g (s ! a) msk keypoints bounding_boxes force
               = apply_gradient lib self g0 (s ! a) msk keypoints bounding_boxes"
      using gt True by (simp add: call_def)
    from apply_gradient_store_sound [OF assms(1) st] have e: "extends s s'"
      and k: "(case r of
               Inl e \<Rightarrow> apply_gradient lib self g0 (s ! a) msk keypoints bounding_boxes = Inl e
             | Inr (None, g') \<Rightarrow> False
             | Inr (Some out, g') \<Rightarrow>
                 length s \<le> output_image out \<and> output_image out < length s'
                 \<and> apply_gradient lib self g0 (s ! a) msk keypoints bounding_boxes
                     = Inr (Some (load_outputs s' out), g'))"
      by simp_all
    have "s' ! a = s ! a" using extends_nth [OF e assms(1)] .
    moreover have "\<forall>out g'. r = Inr (Some out, g') \<longrightarrow>
               length s \<le> output_image out \<and> output_image out < length s'
               \<and> output_image out \<noteq> a
               \<and> call lib self g (s ! a) msk keypoints bounding_boxes force
                   = Inr (Some (load_outputs s' out), g')"
      using k c assms(1) by auto
    ultimately show ?thesis using e by blast
  qed
qed

lemma call_store_gray_returns:
  assumes "a < length s" and "gray_image h w (s ! a)"
    and "call_store lib self g s a msk keypoints bounding_boxes True = (r, s')"
  shows "\<exists>out g'. r = Inr (Some out, g')"
proof -
  have st: "apply_gradient_store lib self g s a msk keypoints bounding_boxes = (r, s')"
    using assms(3) by (simp add: call_store_def gate_def)
  from apply_gradient_gray [OF assms(2), of lib self g msk keypoints bounding_boxes]
  obtain out0 g0 where
    p: "apply_gradient lib self g (s ! a) msk keypoints bounding_boxes = Inr (Some out0, g0)"
    by blast
  from apply_gradient_store_sound [OF assms(1) st] p show ?thesis
    by (cases r) (auto split: option.splits)
qed

theorem input_buffer_untouched_witness:
  "(0::nat) < length [Img2 [[128]]]
   \<and> (\<exists>r s' out g'.
         call_store cv2_plain default_gradient (sconst 0) [Img2 [[128]]] 0
             (None :: unit option) (None :: unit option) (None :: unit option) True = (r, s')
         \<and> r = Inr (Some out, g')
         \<and> extends [Img2 [[128]]] s' \<and> s' ! 0 = Img2 [[128]]
         \<and> length [Img2 [[128 :: byte]]] \<le> output_image out \<and> output_image out \<noteq> 0)"
proof -
  let ?s = "[Img2 [[128]]]"
  obtain r s' where
    c: "call_store cv2_plain default_gradient (sconst 0) ?s 0
          (None :: unit option) (None :: unit option) (None :: unit option) True = (r, s')"
    by (cases "call_store cv2_plain default_gradient (sconst 0) ?s 0
          (None :: unit option) (None :: unit option) (None :: unit option) True")
  have a: "(0::nat) < length ?s" by simp
  have g: "gray_image 1 1 (?s ! 0)" by (simp add: gray_image_def)
  from call_store_gray_returns [OF a g c] obtain out g' where r: "r = Inr (Some out, g')"
    by blast
  from input_buffer_untouched [OF a c] r
  have "extends ?s s'" and "s' ! 0 = Img2 [[128]]"
    and "length ?s \<le> output_image out" and "output_image out \<noteq> 0"
    by simp_all
  with a c r show ?thesis by blast
qed

end
